theory Spec2Isabelle
  imports Main
begin

section \<open>Python string and list operations used by the extractor\<close>

text \<open>
  Source text is a \<^typ>\<open>string\<close>; the model covers the 8-bit code points. Among them
  Python's \<^verbatim>\<open>str.isspace\<close> holds for 9 to 13, 28 to 32, 133 and 160, and these are the
  characters that \<^verbatim>\<open>strip()\<close> and \<^verbatim>\<open>lstrip()\<close> remove.
\<close>

definition isspace :: "char \<Rightarrow> bool" where
  "isspace c = (of_char c \<in> set [9, 10, 11, 12, 13, 28, 29, 30, 31, 32, 133, 160 :: nat])"

definition lstrip :: "string \<Rightarrow> string" where
  "lstrip s = dropWhile isspace s"

definition rstrip :: "string \<Rightarrow> string" where
  "rstrip s = rev (dropWhile isspace (rev s))"

definition strip :: "string \<Rightarrow> string" where
  "strip s = rstrip (lstrip s)"

definition startswith :: "string \<Rightarrow> string \<Rightarrow> bool" where
  "startswith s p = (take (length p) s = p)"

text \<open>\<^verbatim>\<open>s.split(c)\<close> for a one-character separator: never empty, one more piece than
  separators.\<close>

fun split_str :: "char \<Rightarrow> string \<Rightarrow> string list" where
  "split_str c [] = [[]]"
| "split_str c (x # xs) =
     (if x = c then [] # split_str c xs
      else (case split_str c xs of
              [] \<Rightarrow> [[x]]
            | y # ys \<Rightarrow> (x # y) # ys))"

text \<open>\<^verbatim>\<open>sep.join(xs)\<close>.\<close>

fun join_str :: "string \<Rightarrow> string list \<Rightarrow> string" where
  "join_str sep [] = []"
| "join_str sep [x] = x"
| "join_str sep (x # y # ys) = x @ sep @ join_str sep (y # ys)"

datatype error =
    IndexError
  | ValueError string
  | OSError string
  | SyntaxError string
  | UnparseError string

text \<open>\<^verbatim>\<open>xs[i]\<close>: a negative index counts from the end, an index out of range raises.\<close>

definition py_index :: "'a list \<Rightarrow> int \<Rightarrow> error + 'a" where
  "py_index xs i =
     (if 0 \<le> i \<and> i < int (length xs) then Inr (xs ! nat i)
      else if i < 0 \<and> 0 \<le> int (length xs) + i then Inr (xs ! nat (int (length xs) + i))
      else Inl IndexError)"

text \<open>\<^verbatim>\<open>xs[a:b]\<close>: both bounds are clamped to the list, a negative one counts from the
  end; slicing never raises.\<close>

definition slice_bound :: "nat \<Rightarrow> int \<Rightarrow> nat" where
  "slice_bound n i = (if i < 0 then nat (max 0 (int n + i)) else min n (nat i))"

definition py_slice :: "'a list \<Rightarrow> int \<Rightarrow> int \<Rightarrow> 'a list" where
  "py_slice xs a b =
     take (slice_bound (length xs) b - slice_bound (length xs) a)
       (drop (slice_bound (length xs) a) xs)"

section \<open>The syntax tree handed over by the tree provider\<close>

text \<open>
  The tree comes from Python's \<^verbatim>\<open>ast.parse\<close>. Only the parts the extractor reads are
  kept. Decorators and assignment targets are inspected by shape, so they are expressions
  of the datatype \<open>expr\<close>; annotations are only handed to \<^verbatim>\<open>ast.unparse\<close>, so their
  type \<^typ>\<open>'a\<close> is left open and the renderer is a parameter \<open>unparse\<close> of the model,
  which returns the rendered text or the exception raised. \<open>lineno\<close> is 1-based.
\<close>

datatype expr =
    Name string
  | Attribute expr string
  | Call expr "expr list"
  | Subscript expr expr
  | OtherExpr

record 'a ast_arg =
  arg :: string
  annotation :: "'a option"

record 'a arguments =
  posonlyargs :: "'a ast_arg list"
  args :: "'a ast_arg list"
  vararg :: "'a ast_arg option"
  kwonlyargs :: "'a ast_arg list"
  kwarg :: "'a ast_arg option"

text \<open>\<open>node_docstring\<close> is what \<^verbatim>\<open>ast.get_docstring(node)\<close> returns.\<close>

record 'a function_def =
  node_name :: string
  lineno :: nat
  decorator_list :: "expr list"
  node_args :: "'a arguments"
  returns :: "'a option"
  node_docstring :: "string option"

datatype import_alias = Alias (alias_name: string) (asname: "string option")

datatype 'a stmt =
    Import "import_alias list"
  | ImportFrom "string option" "import_alias list"
  | Assign "expr list" nat
  | AnnAssign expr 'a nat
  | FunctionDef "'a function_def"
  | ClassDef string "'a stmt list"
  | OtherStmt

section \<open>Signature synthesizer\<close>

text \<open>\<^verbatim>\<open>_build_signature_string\<close>: the loop body for one entry of \<^verbatim>\<open>node.args.args\<close>.\<close>

definition arg_str :: "('a \<Rightarrow> error + string) \<Rightarrow> 'a ast_arg \<Rightarrow> error + string" where
  "arg_str unparse a =
     (case annotation a of
        None \<Rightarrow> Inr (arg a)
      | Some t \<Rightarrow> (case unparse t of
                    Inl e \<Rightarrow> Inl e
                  | Inr s \<Rightarrow> Inr (arg a @ '': '' @ s)))"

fun arg_strs :: "('a \<Rightarrow> error + string) \<Rightarrow> 'a ast_arg list \<Rightarrow> error + string list" where
  "arg_strs unparse [] = Inr []"
| "arg_strs unparse (a # as) =
     (case arg_str unparse a of
        Inl e \<Rightarrow> Inl e
      | Inr s \<Rightarrow> (case arg_strs unparse as of
                    Inl e \<Rightarrow> Inl e
                  | Inr ss \<Rightarrow> Inr (s # ss)))"

definition build_signature_string ::
  "('a \<Rightarrow> error + string) \<Rightarrow> 'a function_def \<Rightarrow> error + string" where
  "build_signature_string unparse node =
     (case arg_strs unparse (args (node_args node)) of
        Inl e \<Rightarrow> Inl e
      | Inr ss \<Rightarrow>
          (case returns node of
             None \<Rightarrow> Inr (''('' @ join_str '', '' ss @ '')'')
           | Some r \<Rightarrow>
               (case unparse r of
                  Inl e \<Rightarrow> Inl e
                | Inr s \<Rightarrow> Inr (''('' @ join_str '', '' ss @ '')'' @ '' -> '' @ s))))"

section \<open>Span recoverer\<close>

text \<open>
  The backward loop of \<^verbatim>\<open>_extract_function_source\<close>,
  \<^verbatim>\<open>for i in range(start_line - 1, -1, -1)\<close>. The first argument is the list of lines, the
  second counts the indices still to visit (\<open>Suc i\<close> visits index \<open>i\<close>), the third is
  the current value of \<^verbatim>\<open>start_line\<close>. A line starting with \<^verbatim>\<open>@\<close> moves \<^verbatim>\<open>start_line\<close>
  up; a line that is neither empty nor a comment breaks; every other line is passed over.
\<close>

fun decorator_scan :: "string list \<Rightarrow> nat \<Rightarrow> int \<Rightarrow> error + int" where
  "decorator_scan lines 0 start_line = Inr start_line"
| "decorator_scan lines (Suc i) start_line =
     (if length lines \<le> i then Inl IndexError
      else if startswith (strip (lines ! i)) ''@'' then decorator_scan lines i (int i)
      else if strip (lines ! i) \<noteq> [] \<and> \<not> startswith (strip (lines ! i)) ''#''
        then Inr start_line
      else decorator_scan lines i start_line)"

definition indent_of :: "string \<Rightarrow> nat" where
  "indent_of line = length line - length (lstrip line)"

text \<open>The test of the forward loop of \<^verbatim>\<open>_extract_function_source\<close> on one line.\<close>

definition starts_definition :: "nat \<Rightarrow> string \<Rightarrow> bool" where
  "starts_definition func_indent line =
     (strip line \<noteq> [] \<and> indent_of line \<le> func_indent \<and>
      (startswith (strip line) ''def '' \<or> startswith (strip line) ''class '' \<or>
       startswith (strip line) ''@''))"

text \<open>
  A forward loop \<^verbatim>\<open>for i in range(k, len(lines))\<close> that breaks at the first line
  satisfying \<open>stop\<close>: the remaining lines and the index of their head. \<open>None\<close> when the
  loop runs out, which leaves \<^verbatim>\<open>end_line\<close> at \<^verbatim>\<open>len(lines)\<close>.
\<close>

fun first_stop :: "(string \<Rightarrow> bool) \<Rightarrow> string list \<Rightarrow> nat \<Rightarrow> nat option" where
  "first_stop stop [] i = None"
| "first_stop stop (l # ls) i = (if stop l then Some i else first_stop stop ls (Suc i))"

definition end_line_from :: "(string \<Rightarrow> bool) \<Rightarrow> string list \<Rightarrow> nat \<Rightarrow> nat" where
  "end_line_from stop lines k =
     (case first_stop stop (drop k lines) k of
        None \<Rightarrow> length lines
      | Some i \<Rightarrow> i)"

text \<open>The two line indices \<^verbatim>\<open>start_line\<close> and \<^verbatim>\<open>end_line\<close> that
  \<^verbatim>\<open>_extract_function_source\<close> computes, 0-based.\<close>

definition function_span :: "string list \<Rightarrow> 'a function_def \<Rightarrow> error + int \<times> nat" where
  "function_span lines node =
     (case decorator_scan lines (lineno node - 1) (int (lineno node) - 1) of
        Inl e \<Rightarrow> Inl e
      | Inr start_line \<Rightarrow>
          (case py_index lines (int (lineno node) - 1) of
             Inl e \<Rightarrow> Inl e
           | Inr def_line \<Rightarrow>
               Inr (start_line,
                    end_line_from (starts_definition (indent_of def_line)) lines (lineno node))))"

definition extract_function_source :: "string \<Rightarrow> 'a function_def \<Rightarrow> error + string" where
  "extract_function_source content node =
     (case function_span (split_str CHR 0x0A content) node of
        Inl e \<Rightarrow> Inl e
      | Inr (start_line, end_line) \<Rightarrow>
          Inr (join_str [CHR 0x0A]
                 (py_slice (split_str CHR 0x0A content) start_line (int end_line))))"

section \<open>Entities and the per-file result\<close>

text \<open>
  The class \<^verbatim>\<open>MCPFunction\<close>. Its constructor is always called with \<^verbatim>\<open>func = None\<close>, for
  which \<^verbatim>\<open>inspect.getsource\<close> raises the \<^verbatim>\<open>TypeError\<close> the constructor catches; the
  fallback values it then stores in \<^verbatim>\<open>source_code\<close> and \<^verbatim>\<open>line_number\<close> are overwritten
  by the caller at once, so a record is built with the final values.
\<close>

record MCPFunction =
  name :: string
  docstring :: string
  signature :: string
  source_code :: string
  line_number :: nat
  func_module_imports :: "string list"

text \<open>The warnings \<^verbatim>\<open>parse_file\<close> logs, with the name of the entity and the exception.\<close>

datatype warning =
    FailedConstant string error
  | FailedMcpFunction string error
  | FailedHelperFunction string error
  | FailedMcpClassMethod string error
  | FailedHelperClassMethod string error

text \<open>
  The locals of \<^verbatim>\<open>parse_file\<close> that end up in the returned dictionary, and the log. The
  keys \<^verbatim>\<open>other_functions\<close> (always empty), \<^verbatim>\<open>module_docstring\<close> and \<^verbatim>\<open>content\<close> are read
  by nothing modelled here and are left out.
\<close>

record extraction =
  mcp_functions :: "MCPFunction list"
  helper_functions :: "MCPFunction list"
  module_constants :: "string list"
  module_imports :: "string list"
  warnings :: "warning list"

section \<open>Import collector\<close>

definition import_line :: "'a stmt \<Rightarrow> error + string list" where
  "import_line node =
     (case node of
        Import names \<Rightarrow> Inr (map (\<lambda>a. ''import '' @ alias_name a) names)
      | ImportFrom module names \<Rightarrow>
          (case module of
             None \<Rightarrow> Inr []
           | Some m \<Rightarrow>
               if m = [] then Inr []
               else (case names of
                       [] \<Rightarrow> Inl IndexError
                     | a # _ \<Rightarrow>
                         if alias_name a = ''*'' then Inr [''from '' @ m @ '' import *'']
                         else Inr [''from '' @ m @ '' import ''
                                     @ join_str '', '' (map alias_name names)]))
      | _ \<Rightarrow> Inr [])"

fun collect_imports :: "'a stmt list \<Rightarrow> string list \<Rightarrow> error + string list" where
  "collect_imports [] acc = Inr acc"
| "collect_imports (node # rest) acc =
     (case import_line node of
        Inl e \<Rightarrow> Inl e
      | Inr ls \<Rightarrow> collect_imports rest (acc @ ls))"

section \<open>Constant extractor\<close>

text \<open>The test of the forward loop of the constant extractor on one line.\<close>

definition starts_statement :: "nat \<Rightarrow> string \<Rightarrow> bool" where
  "starts_statement assignment_indent line =
     (strip line \<noteq> [] \<and> indent_of line \<le> assignment_indent \<and>
      (startswith (strip line) ''def '' \<or> startswith (strip line) ''class '' \<or>
       startswith (strip line) ''@'' \<or>
       (CHR ''='' \<in> set line \<and> \<not> startswith (strip line) ''#'')))"

text \<open>
  The body of the \<^verbatim>\<open>try\<close> block for one assignment at line \<open>ln\<close>: \<open>Inl\<close> when it
  raises, \<open>Inr None\<close> when nothing is appended, \<open>Inr (Some c)\<close> when \<open>c\<close> is appended to
  \<^verbatim>\<open>module_constants\<close>.
\<close>

definition extract_constant :: "string \<Rightarrow> nat \<Rightarrow> error + string option" where
  "extract_constant content ln =
     (case py_index (split_str CHR 0x0A content) (int ln - 1) of
        Inl e \<Rightarrow> Inl e
      | Inr first \<Rightarrow>
          (let end_line =
                 end_line_from (starts_statement (indent_of first)) (split_str CHR 0x0A content) ln;
               constant_lines = py_slice (split_str CHR 0x0A content) (int ln - 1) (int end_line);
               constant_def = strip (join_str [CHR 0x0A] constant_lines)
           in if constant_lines = [] then Inr None
              else if constant_def \<noteq> [] \<and> \<not> startswith constant_def ''#''
                      \<and> CHR ''='' \<in> set constant_def
                then Inr (Some constant_def)
              else Inr None))"

fun constant_targets :: "string \<Rightarrow> nat \<Rightarrow> expr list \<Rightarrow> extraction \<Rightarrow> extraction" where
  "constant_targets content ln [] st = st"
| "constant_targets content ln (Name ident # targets) st =
     (case extract_constant content ln of
        Inl e \<Rightarrow>
          constant_targets content ln targets
            (st\<lparr>warnings := warnings st @ [FailedConstant ident e]\<rparr>)
      | Inr None \<Rightarrow> constant_targets content ln targets st
      | Inr (Some c) \<Rightarrow>
          constant_targets content ln targets
            (st\<lparr>module_constants := module_constants st @ [c]\<rparr>))"
| "constant_targets content ln (_ # targets) st = constant_targets content ln targets st"

fun extract_constants :: "string \<Rightarrow> 'a stmt list \<Rightarrow> extraction \<Rightarrow> extraction" where
  "extract_constants content [] st = st"
| "extract_constants content (Assign targets ln # rest) st =
     extract_constants content rest (constant_targets content ln targets st)"
| "extract_constants content (_ # rest) st = extract_constants content rest st"

section \<open>Entity classifier\<close>

fun is_mcp_tool :: "expr \<Rightarrow> bool" where
  "is_mcp_tool (Call (Attribute (Name v) a) _) = (v = ''mcp'' \<and> a = ''tool'')"
| "is_mcp_tool _ = False"

definition has_mcp_decorator :: "'a function_def \<Rightarrow> bool" where
  "has_mcp_decorator node = list_ex is_mcp_tool (decorator_list node)"

text \<open>The body of each of the four \<^verbatim>\<open>try\<close> blocks that build an entity.\<close>

definition make_function ::
  "('a \<Rightarrow> error + string) \<Rightarrow> string \<Rightarrow> string list \<Rightarrow> 'a function_def \<Rightarrow> error + MCPFunction"
where
  "make_function unparse content imports node =
     (case extract_function_source content node of
        Inl e \<Rightarrow> Inl e
      | Inr func_source \<Rightarrow>
          (case build_signature_string unparse node of
             Inl e \<Rightarrow> Inl e
           | Inr sig \<Rightarrow>
               Inr \<lparr>name = node_name node,
                    docstring = (case node_docstring node of None \<Rightarrow> [] | Some d \<Rightarrow> d),
                    signature = sig,
                    source_code = func_source,
                    line_number = lineno node,
                    func_module_imports = imports\<rparr>))"

text \<open>One function node, at top level (\<open>in_class = False\<close>) or in a class body.\<close>

definition classify ::
  "('a \<Rightarrow> error + string) \<Rightarrow> string \<Rightarrow> bool \<Rightarrow> 'a function_def \<Rightarrow> extraction \<Rightarrow> extraction"
where
  "classify unparse content in_class node st =
     (if has_mcp_decorator node then
        (case make_function unparse content (module_imports st) node of
           Inr mcp_func \<Rightarrow> st\<lparr>mcp_functions := mcp_functions st @ [mcp_func]\<rparr>
         | Inl e \<Rightarrow>
             st\<lparr>warnings := warnings st @
               [(if in_class then FailedMcpClassMethod else FailedMcpFunction) (node_name node) e]\<rparr>)
      else
        (case make_function unparse content (module_imports st) node of
           Inr helper_func \<Rightarrow> st\<lparr>helper_functions := helper_functions st @ [helper_func]\<rparr>
         | Inl e \<Rightarrow>
             st\<lparr>warnings := warnings st @
               [(if in_class then FailedHelperClassMethod else FailedHelperFunction)
                  (node_name node) e]\<rparr>))"

fun classify_methods ::
  "('a \<Rightarrow> error + string) \<Rightarrow> string \<Rightarrow> 'a stmt list \<Rightarrow> extraction \<Rightarrow> extraction"
where
  "classify_methods unparse content [] st = st"
| "classify_methods unparse content (FunctionDef class_node # rest) st =
     classify_methods unparse content rest (classify unparse content True class_node st)"
| "classify_methods unparse content (_ # rest) st = classify_methods unparse content rest st"

fun classify_nodes ::
  "('a \<Rightarrow> error + string) \<Rightarrow> string \<Rightarrow> 'a stmt list \<Rightarrow> extraction \<Rightarrow> extraction"
where
  "classify_nodes unparse content [] st = st"
| "classify_nodes unparse content (FunctionDef node # rest) st =
     classify_nodes unparse content rest (classify unparse content False node st)"
| "classify_nodes unparse content (ClassDef cname body # rest) st =
     classify_nodes unparse content rest (classify_methods unparse content body st)"
| "classify_nodes unparse content (_ # rest) st = classify_nodes unparse content rest st"

section \<open>Parsing one file\<close>

text \<open>
  An input file as \<^verbatim>\<open>parse_file\<close> meets it: \<open>Inl e\<close> when reading it or \<^verbatim>\<open>ast.parse\<close>
  raises \<open>e\<close>, else its text and the top-level statements \<^verbatim>\<open>tree.body\<close>.
\<close>

type_synonym 'a source_file = "error + string \<times> 'a stmt list"

definition parse_file :: "('a \<Rightarrow> error + string) \<Rightarrow> 'a source_file \<Rightarrow> error + extraction" where
  "parse_file unparse f =
     (case f of
        Inl e \<Rightarrow> Inl e
      | Inr (content, tree) \<Rightarrow>
          (case collect_imports tree [] of
             Inl e \<Rightarrow> Inl e
           | Inr imports \<Rightarrow>
               Inr (classify_nodes unparse content tree
                      (extract_constants content tree
                         \<lparr>mcp_functions = [], helper_functions = [], module_constants = [],
                          module_imports = imports, warnings = []\<rparr>))))"

section \<open>The builder\<close>

text \<open>
  The lists of \<^verbatim>\<open>GradioMCPBuilder\<close> that \<^verbatim>\<open>_parse_input_files\<close> fills. A Python method
  that raises leaves the object as it was at that moment, so the methods return the
  object together with \<open>Some e\<close> when they raise \<open>e\<close> and \<open>None\<close> when they return.
\<close>

record builder =
  self_mcp_functions :: "MCPFunction list"
  self_helper_functions :: "MCPFunction list"
  self_module_constants :: "string list"

definition init_builder :: builder where
  "init_builder =
     \<lparr>self_mcp_functions = [], self_helper_functions = [], self_module_constants = []\<rparr>"

definition const_name_of :: "string \<Rightarrow> string" where
  "const_name_of constant = strip (hd (split_str CHR ''='' constant))"

text \<open>The loop over one file's constants, with the dictionary \<^verbatim>\<open>seen_constants\<close>.\<close>

fun add_constants ::
  "string list \<Rightarrow> (string \<rightharpoonup> string) \<times> string list \<Rightarrow> (string \<rightharpoonup> string) \<times> string list"
where
  "add_constants [] acc = acc"
| "add_constants (constant # rest) (seen_constants, kept) =
     (if CHR ''='' \<in> set constant then
        (if seen_constants (const_name_of constant) = None then
           add_constants rest
             (seen_constants(const_name_of constant \<mapsto> constant), kept @ [constant])
         else add_constants rest (seen_constants, kept))
      else add_constants rest (seen_constants, kept))"

fun parse_files ::
  "('a \<Rightarrow> error + string) \<Rightarrow> 'a source_file list \<Rightarrow> (string \<rightharpoonup> string) \<Rightarrow> builder
     \<Rightarrow> builder \<times> error option"
where
  "parse_files unparse [] seen_constants b = (b, None)"
| "parse_files unparse (input_file # rest) seen_constants b =
     (case parse_file unparse input_file of
        Inl e \<Rightarrow> (b, Some e)
      | Inr result \<Rightarrow>
          (case add_constants (module_constants result)
                  (seen_constants, self_module_constants b) of
             (seen', kept) \<Rightarrow>
               parse_files unparse rest seen'
                 \<lparr>self_mcp_functions = self_mcp_functions b @ mcp_functions result,
                  self_helper_functions = self_helper_functions b @ helper_functions result,
                  self_module_constants = kept\<rparr>))"

definition parse_input_files ::
  "('a \<Rightarrow> error + string) \<Rightarrow> 'a source_file list \<Rightarrow> builder \<Rightarrow> builder \<times> error option"
where
  "parse_input_files unparse input_files b =
     (case parse_files unparse input_files Map.empty b of
        (b', Some e) \<Rightarrow> (b', Some e)
      | (b', None) \<Rightarrow>
          if self_mcp_functions b' = []
          then (b', Some (ValueError ''No MCP functions found in input files''))
          else (b', None))"

text \<open>
  The steps of \<^verbatim>\<open>build\<close> in their order. All but the first belong to the generators,
  which are outside the extractor: \<open>run\<close> stands for them, and a step that raises stops
  the build. The second component of the result lists the steps that were entered.
\<close>

datatype build_step =
    ParseInputFiles
  | ImproveDocstrings
  | GenerateTestPrompts
  | CreateOutputDirectories
  | GenerateServerFiles
  | GenerateClientFiles
  | GenerateDocumentation
  | GenerateRequirements
  | GenerateConfigFile

definition later_steps :: "build_step list" where
  "later_steps =
     [ImproveDocstrings, GenerateTestPrompts, CreateOutputDirectories, GenerateServerFiles,
      GenerateClientFiles, GenerateDocumentation, GenerateRequirements, GenerateConfigFile]"

fun run_steps ::
  "(build_step \<Rightarrow> builder \<Rightarrow> builder \<times> error option) \<Rightarrow> build_step list \<Rightarrow> builder
     \<Rightarrow> build_step list \<Rightarrow> builder \<times> build_step list \<times> error option"
where
  "run_steps run [] b entered = (b, entered, None)"
| "run_steps run (s # rest) b entered =
     (case run s b of
        (b', Some e) \<Rightarrow> (b', entered @ [s], Some e)
      | (b', None) \<Rightarrow> run_steps run rest b' (entered @ [s]))"

definition build ::
  "('a \<Rightarrow> error + string) \<Rightarrow> (build_step \<Rightarrow> builder \<Rightarrow> builder \<times> error option)
     \<Rightarrow> 'a source_file list \<Rightarrow> builder \<Rightarrow> builder \<times> build_step list \<times> error option"
where
  "build unparse run input_files b =
     (case parse_input_files unparse input_files b of
        (b', Some e) \<Rightarrow> (b', [ParseInputFiles], Some e)
      | (b', None) \<Rightarrow> run_steps run later_steps b' [ParseInputFiles])"

section \<open>Predicates used in the statements\<close>

text \<open>Two extractions hold the same entities, constants and imports; the logs may differ.\<close>

definition same_entities :: "extraction \<Rightarrow> extraction \<Rightarrow> bool" where
  "same_entities r r' =
     (mcp_functions r = mcp_functions r' \<and> helper_functions r = helper_functions r' \<and>
      module_constants r = module_constants r' \<and> module_imports r = module_imports r')"

text \<open>
  The state of the deduplication loop after the constants \<open>seen\<close> (in processing order):
  the dictionary holds exactly the names of the kept constants, no name is kept twice,
  each kept constant is the first one of its name, and every name met is kept.
\<close>

definition dedup_inv :: "(string \<rightharpoonup> string) \<Rightarrow> string list \<Rightarrow> string list \<Rightarrow> bool" where
  "dedup_inv seen_constants kept seen =
     (dom seen_constants = const_name_of ` set kept \<and>
      distinct (map const_name_of kept) \<and>
      list_all (\<lambda>c. find (\<lambda>d. CHR ''='' \<in> set d \<and> const_name_of d = const_name_of c) seen = Some c)
        kept \<and>
      list_all (\<lambda>d. CHR ''='' \<notin> set d \<or> const_name_of d \<in> const_name_of ` set kept) seen)"

section \<open>Example inputs\<close>

text \<open>
  In the examples an annotation is given by the text \<^verbatim>\<open>ast.unparse\<close> renders for it, so
  the renderer is \<open>Inr\<close>; \<open>failing_unparse\<close> is a renderer that raises on every
  annotation.
\<close>

definition mcp_tool :: expr where
  "mcp_tool = Call (Attribute (Name ''mcp'') ''tool'') []"

definition regular_args :: "'a ast_arg list \<Rightarrow> 'a arguments" where
  "regular_args as = \<lparr>posonlyargs = [], args = as, vararg = None, kwonlyargs = [], kwarg = None\<rparr>"

definition untyped :: "string \<Rightarrow> 'a ast_arg" where
  "untyped n = \<lparr>arg = n, annotation = None\<rparr>"

definition typed :: "string \<Rightarrow> 'a \<Rightarrow> 'a ast_arg" where
  "typed n t = \<lparr>arg = n, annotation = Some t\<rparr>"

definition def_node :: "string \<Rightarrow> nat \<Rightarrow> expr list \<Rightarrow> 'a ast_arg list \<Rightarrow> 'a option \<Rightarrow> 'a function_def"
where
  "def_node n ln decorators as r =
     \<lparr>node_name = n, lineno = ln, decorator_list = decorators, node_args = regular_args as,
      returns = r, node_docstring = None\<rparr>"

definition failing_unparse :: "string \<Rightarrow> error + string" where
  "failing_unparse t = Inl (UnparseError t)"

text \<open>A class with one marked method \<^verbatim>\<open>m(self, x: str)\<close>.\<close>

definition class_C_text :: string where
  "class_C_text =
     join_str [CHR 0x0A]
       [''class C:'', ''    @mcp.tool()'', ''    def m(self, x: str):'', ''        pass'', []]"

definition method_m :: "string function_def" where
  "method_m = def_node ''m'' 3 [mcp_tool] [untyped ''self'', typed ''x'' ''str''] None"

definition class_C_file :: "string source_file" where
  "class_C_file = Inr (class_C_text, [ClassDef ''C'' [FunctionDef method_m]])"

text \<open>A decorator, a blank line, and the definition.\<close>

definition spaced_text :: string where
  "spaced_text = join_str [CHR 0x0A] [''@mcp.tool()'', [], ''def f():'', ''    pass'']"

definition spaced_f :: "string function_def" where
  "spaced_f = def_node ''f'' 3 [mcp_tool] [] None"

text \<open>A function, a top-level assignment, and a second function.\<close>

definition trailing_text :: string where
  "trailing_text =
     join_str [CHR 0x0A] [''def f():'', ''    pass'', ''X = 1'', ''def g():'', ''    pass'']"

definition trailing_f :: "string function_def" where
  "trailing_f = def_node ''f'' 1 [] [] None"

definition trailing_g :: "string function_def" where
  "trailing_g = def_node ''g'' 4 [] [] None"

text \<open>A marked function \<^verbatim>\<open>f(a: int) -> int\<close> below its decorator.\<close>

definition decorated_text :: string where
  "decorated_text =
     join_str [CHR 0x0A] [''@mcp.tool()'', ''def f(a: int) -> int:'', ''    return a'', []]"

definition decorated_f :: "string function_def" where
  "decorated_f = def_node ''f'' 2 [mcp_tool] [typed ''a'' ''int''] (Some ''int'')"

definition decorated_file :: "string source_file" where
  "decorated_file = Inr (decorated_text, [FunctionDef decorated_f])"

text \<open>Two files binding \<^verbatim>\<open>X\<close>; the first also has an entry point.\<close>

definition first_file :: "string source_file" where
  "first_file =
     Inr (join_str [CHR 0x0A] [''X = 1'', ''@mcp.tool()'', ''def f():'', ''    pass'', []],
          [Assign [Name ''X''] 1, FunctionDef (def_node ''f'' 3 [mcp_tool] [] None)])"

definition second_file :: "string source_file" where
  "second_file = Inr (join_str [CHR 0x0A] [''X = 2'', []], [Assign [Name ''X''] 1])"

text \<open>A file with a helper and no entry point.\<close>

definition helper_file :: "string source_file" where
  "helper_file =
     Inr (join_str [CHR 0x0A] [''def helper():'', ''    pass'', []],
          [FunctionDef (def_node ''helper'' 1 [] [] None)])"

text \<open>\<^verbatim>\<open>def f(a, *args, k: int, **kwargs)\<close>.\<close>

definition variadic_f :: "string function_def" where
  "variadic_f =
     \<lparr>node_name = ''f'', lineno = 1, decorator_list = [],
      node_args = \<lparr>posonlyargs = [], args = [untyped ''a''],
                   vararg = Some (untyped ''args''), kwonlyargs = [typed ''k'' ''int''],
                   kwarg = Some (untyped ''kwargs'')\<rparr>,
      returns = None, node_docstring = None\<rparr>"

text \<open>A function whose annotation cannot be rendered, followed by a marked function.\<close>

definition mixed_text :: string where
  "mixed_text =
     join_str [CHR 0x0A]
       [''def bad(x: T):'', ''    pass'', ''@mcp.tool()'', ''def good():'', ''    pass'', []]"

definition bad_node :: "string function_def" where
  "bad_node = def_node ''bad'' 1 [] [typed ''x'' ''T''] None"

definition good_node :: "string function_def" where
  "good_node = def_node ''good'' 4 [mcp_tool] [] None"

text \<open>A comment and blank lines between a statement and an undecorated definition.\<close>

definition commented_text :: string where
  "commented_text =
     join_str [CHR 0x0A] [''x = 1'', [], [], ''# about f'', ''def f():'', ''    pass'']"

definition commented_f :: "string function_def" where
  "commented_f = def_node ''f'' 5 [] [] None"

text \<open>A chained assignment binding \<^verbatim>\<open>A\<close> and \<^verbatim>\<open>B\<close>, and a second file binding \<^verbatim>\<open>B\<close>.\<close>

definition chained_file :: "string source_file" where
  "chained_file =
     Inr (join_str [CHR 0x0A] [''A = B = 3'', ''@mcp.tool()'', ''def f():'', ''    pass'', []],
          [Assign [Name ''A'', Name ''B''] 1, FunctionDef (def_node ''f'' 3 [mcp_tool] [] None)])"

definition rebinding_file :: "string source_file" where
  "rebinding_file = Inr (join_str [CHR 0x0A] [''B = 4'', []], [Assign [Name ''B''] 1])"

text \<open>Generators that do nothing, annotated assignments, and aliased imports.\<close>

definition idle_run :: "build_step \<Rightarrow> builder \<Rightarrow> builder \<times> error option" where
  "idle_run s b = (b, None)"

definition annotated_text :: string where
  "annotated_text = join_str [CHR 0x0A] [''X: int = 1'', ''a.b = 5'', ''Y = 2'', []]"

definition aliased_file :: "string source_file" where
  "aliased_file =
     Inr (join_str [CHR 0x0A] [''import a as b'', ''from M import A as B'', ''from . import x'', []],
          [Import [Alias ''a'' (Some ''b'')],
           ImportFrom (Some ''M'') [Alias ''A'' (Some ''B'')],
           ImportFrom None [Alias ''x'' None]])"

section \<open>Facts about the string operations\<close>

lemma split_str_not_Nil: "split_str c s \<noteq> []"
  by (induction s) (auto split: list.splits)

section \<open>Facts about the signature synthesizer\<close>

lemma arg_str_prefix: "arg_str unparse a = Inr s \<Longrightarrow> startswith s (arg a)"
  by (auto simp: arg_str_def startswith_def split: option.splits sum.splits)

lemma arg_strs_all2:
  "arg_strs unparse as = Inr ss \<Longrightarrow> list_all2 (\<lambda>p a. startswith p (arg a)) ss as"
proof (induction as arbitrary: ss)
  case Nil
  then show ?case by simp
next
  case (Cons a as)
  then show ?case
    by (auto split: sum.splits dest: arg_str_prefix)
qed


section \<open>Facts about the span recoverer\<close>

lemma first_stop_None:
  "first_stop stop ls i = None \<longleftrightarrow> (\<forall>l \<in> set ls. \<not> stop l)"
  by (induction ls arbitrary: i) auto

lemma first_stop_Some:
  "first_stop stop ls i = Some e \<Longrightarrow>
     i \<le> e \<and> e < i + length ls \<and> stop (ls ! (e - i)) \<and> (\<forall>j. i \<le> j \<and> j < e \<longrightarrow> \<not> stop (ls ! (j - i)))"
proof (induction ls arbitrary: i)
  case Nil
  then show ?case by simp
next
  case (Cons l ls)
  show ?case
  proof (cases "stop l")
    case True
    with Cons.prems show ?thesis by auto
  next
    case False
    with Cons.prems have rec: "first_stop stop ls (Suc i) = Some e" by simp
    from Cons.IH[OF rec] have ih: "Suc i \<le> e" "e < Suc i + length ls" "stop (ls ! (e - Suc i))"
      "\<forall>j. Suc i \<le> j \<and> j < e \<longrightarrow> \<not> stop (ls ! (j - Suc i))" by auto
    have "e - i = Suc (e - Suc i)" using ih(1) by simp
    then have "stop ((l # ls) ! (e - i))" using ih(3) by simp
    moreover have "\<forall>j. i \<le> j \<and> j < e \<longrightarrow> \<not> stop ((l # ls) ! (j - i))"
    proof (intro allI impI)
      fix j assume j: "i \<le> j \<and> j < e"
      show "\<not> stop ((l # ls) ! (j - i))"
      proof (cases "j = i")
        case True
        then show ?thesis using False by simp
      next
        case False
        then have "Suc i \<le> j" using j by simp
        then have "\<not> stop (ls ! (j - Suc i))" using ih(4) j by simp
        moreover have "j - i = Suc (j - Suc i)" using \<open>Suc i \<le> j\<close> by simp
        ultimately show ?thesis by simp
      qed
    qed
    ultimately show ?thesis using ih(1,2) by simp
  qed
qed

lemma end_line_from_spec:
  assumes "k \<le> length lines"
  shows "k \<le> end_line_from stop lines k \<and> end_line_from stop lines k \<le> length lines
       \<and> (\<forall>j. k \<le> j \<and> j < end_line_from stop lines k \<longrightarrow> \<not> stop (lines ! j))
       \<and> (end_line_from stop lines k < length lines \<longrightarrow> stop (lines ! end_line_from stop lines k))"
proof (cases "first_stop stop (drop k lines) k")
  case None
  then have e: "end_line_from stop lines k = length lines" by (simp add: end_line_from_def)
  from None have "\<forall>l \<in> set (drop k lines). \<not> stop l" by (simp add: first_stop_None)
  have "\<forall>j. k \<le> j \<and> j < length lines \<longrightarrow> \<not> stop (lines ! j)"
  proof (intro allI impI)
    fix j assume j: "k \<le> j \<and> j < length lines"
    then have "drop k lines ! (j - k) = lines ! j" by simp
    moreover have "drop k lines ! (j - k) \<in> set (drop k lines)"
      using j by (intro nth_mem) (simp, arith)
    ultimately show "\<not> stop (lines ! j)" using None by (simp add: first_stop_None)
  qed
  with e assms show ?thesis by simp
next
  case (Some e)
  then have e: "end_line_from stop lines k = e" by (simp add: end_line_from_def)
  from first_stop_Some[OF Some] have
    h: "k \<le> e" "e < k + length (drop k lines)" "stop (drop k lines ! (e - k))"
       "\<forall>j. k \<le> j \<and> j < e \<longrightarrow> \<not> stop (drop k lines ! (j - k))" by auto
  from h(2) assms have lt: "e < length lines" by simp
  have "stop (lines ! e)" using h(1,3) assms lt by simp
  moreover have "\<forall>j. k \<le> j \<and> j < e \<longrightarrow> \<not> stop (lines ! j)"
    using h(4) assms lt by simp
  ultimately show ?thesis using e h(1) lt by simp
qed

lemma decorator_scan_bound:
  "decorator_scan lines k s0 = Inr s \<Longrightarrow> s = s0 \<or> (0 \<le> s \<and> s < int k)"
proof (induction k arbitrary: s0)
  case 0
  then show ?case by simp
next
  case (Suc i)
  then show ?case
    by (fastforce split: if_splits)
qed

lemma decorator_scan_returns:
  "k \<le> length lines \<Longrightarrow> \<exists>s. decorator_scan lines k s0 = Inr s"
  by (induction k arbitrary: s0) auto

lemma decorator_scan_lands_on_decorator:
  "decorator_scan lines k s0 = Inr s \<Longrightarrow>
     s = s0 \<or> (0 \<le> s \<and> startswith (strip (lines ! nat s)) ''@'')"
proof (induction k arbitrary: s0)
  case 0
  then show ?case by simp
next
  case (Suc i)
  show ?case
  proof (cases "startswith (strip (lines ! i)) ''@''")
    case True
    with Suc.prems have "decorator_scan lines i (int i) = Inr s"
      by (simp split: if_splits)
    from Suc.IH[OF this] True show ?thesis by auto
  next
    case False
    with Suc.prems have "s = s0 \<or> decorator_scan lines i s0 = Inr s"
      by (auto split: if_splits)
    with Suc.IH show ?thesis by blast
  qed
qed

lemma decorator_scan_passes_no_stop:
  "decorator_scan lines k s0 = Inr s \<Longrightarrow> int k \<le> s0 \<Longrightarrow> s \<le> int j \<Longrightarrow> j < k \<Longrightarrow>
     strip (lines ! j) = [] \<or> startswith (strip (lines ! j)) ''@''
     \<or> startswith (strip (lines ! j)) ''#''"
proof (induction k arbitrary: s0)
  case 0
  then show ?case by simp
next
  case (Suc i)
  show ?case
  proof (cases "startswith (strip (lines ! i)) ''@''")
    case True
    with Suc.prems(1) have rec: "decorator_scan lines i (int i) = Inr s"
      by (simp split: if_splits)
    show ?thesis
    proof (cases "j = i")
      case True
      with \<open>startswith (strip (lines ! i)) ''@''\<close> show ?thesis by simp
    next
      case False
      with Suc.prems(4) have "j < i" by simp
      from Suc.IH[OF rec _ Suc.prems(3) this] show ?thesis by simp
    qed
  next
    case False
    show ?thesis
    proof (cases "strip (lines ! i) \<noteq> [] \<and> \<not> startswith (strip (lines ! i)) ''#''")
      case True
      with False Suc.prems(1) have "s = s0" by (simp split: if_splits)
      with Suc.prems(2,3,4) show ?thesis by simp
    next
      case pass: False
      with False Suc.prems(1) have rec: "decorator_scan lines i s0 = Inr s"
        by (auto split: if_splits)
      show ?thesis
      proof (cases "j = i")
        case True
        with pass show ?thesis by auto
      next
        case False
        with Suc.prems(4) have ji: "j < i" by simp
        have "int i \<le> s0" using Suc.prems(2) by simp
        from Suc.IH[OF rec this Suc.prems(3) ji] show ?thesis .
      qed
    qed
  qed
qed

lemma decorator_scan_misses_only_behind_stop:
  "decorator_scan lines k s0 = Inr s \<Longrightarrow> int k \<le> s0 \<Longrightarrow> int d < s \<Longrightarrow> d < k \<Longrightarrow>
   startswith (strip (lines ! d)) ''@'' \<Longrightarrow>
     \<exists>j. d < j \<and> j < k \<and> strip (lines ! j) \<noteq> [] \<and> \<not> startswith (strip (lines ! j)) ''@''
          \<and> \<not> startswith (strip (lines ! j)) ''#''"
proof (induction k arbitrary: s0)
  case 0
  then show ?case by simp
next
  case (Suc i)
  show ?case
  proof (cases "startswith (strip (lines ! i)) ''@''")
    case True
    with Suc.prems(1) have rec: "decorator_scan lines i (int i) = Inr s"
      by (simp split: if_splits)
    from decorator_scan_bound[OF rec] have "s \<le> int i" by auto
    with Suc.prems(3) have di: "d < i" by simp
    from Suc.IH[OF rec _ Suc.prems(3) di Suc.prems(5)] show ?thesis by auto
  next
    case False
    show ?thesis
    proof (cases "strip (lines ! i) \<noteq> [] \<and> \<not> startswith (strip (lines ! i)) ''#''")
      case True
      have "d \<noteq> i" using False Suc.prems(5) by auto
      with Suc.prems(4) have "d < i" by simp
      with True False show ?thesis by (intro exI[of _ i]) simp
    next
      case pass: False
      with False Suc.prems(1) have rec: "decorator_scan lines i s0 = Inr s"
        by (auto split: if_splits)
      have "d \<noteq> i" using False Suc.prems(5) by auto
      with Suc.prems(4) have di: "d < i" by simp
      have "int i \<le> s0" using Suc.prems(2) by simp
      from Suc.IH[OF rec this Suc.prems(3) di Suc.prems(5)] show ?thesis by auto
    qed
  qed
qed

lemma function_span_defined:
  assumes "lineno node = Suc k" "k < length lines"
  shows "\<exists>s. decorator_scan lines k (int k) = Inr s \<and>
             function_span lines node =
               Inr (s, end_line_from (starts_definition (indent_of (lines ! k))) lines (Suc k))"
proof -
  from assms(2) obtain s where s: "decorator_scan lines k (int k) = Inr s"
    using decorator_scan_returns[of k lines "int k"] by auto
  with assms show ?thesis
    by (simp add: function_span_def py_index_def)
qed

section \<open>Facts about the deduplication loop\<close>

lemma find_app:
  "find P (xs @ ys) = (case find P xs of None \<Rightarrow> find P ys | Some x \<Rightarrow> Some x)"
  by (induction xs) auto

lemma dedup_inv_step_new:
  assumes inv: "dedup_inv seen_constants kept seen"
    and eq: "CHR ''='' \<in> set x" and new: "seen_constants (const_name_of x) = None"
  shows "dedup_inv (seen_constants(const_name_of x \<mapsto> x)) (kept @ [x]) (seen @ [x])"
proof -
  from inv have d: "dom seen_constants = const_name_of ` set kept"
    and dist: "distinct (map const_name_of kept)"
    and first: "\<forall>c \<in> set kept.
        find (\<lambda>d. CHR ''='' \<in> set d \<and> const_name_of d = const_name_of c) seen = Some c"
    and cover: "\<forall>d \<in> set seen. CHR ''='' \<notin> set d \<or> const_name_of d \<in> const_name_of ` set kept"
    by (auto simp: dedup_inv_def list_all_iff)
  from new d have fresh: "const_name_of x \<notin> const_name_of ` set kept"
    by (metis domIff)
  have none: "find (\<lambda>d. CHR ''='' \<in> set d \<and> const_name_of d = const_name_of x) seen = None"
  proof -
    have "\<not> (\<exists>d. d \<in> set seen \<and> CHR ''='' \<in> set d \<and> const_name_of d = const_name_of x)"
    proof
      assume "\<exists>d. d \<in> set seen \<and> CHR ''='' \<in> set d \<and> const_name_of d = const_name_of x"
      then obtain d where d: "d \<in> set seen" "CHR ''='' \<in> set d"
        "const_name_of d = const_name_of x" by blast
      with cover have "const_name_of d \<in> const_name_of ` set kept" by blast
      with d(3) fresh show False by simp
    qed
    then show ?thesis by (simp add: find_None_iff)
  qed
  have 1: "dom (seen_constants(const_name_of x \<mapsto> x)) = const_name_of ` set (kept @ [x])"
    using d by auto
  have 2: "distinct (map const_name_of (kept @ [x]))"
    using dist fresh by auto
  have 3: "\<forall>c \<in> set (kept @ [x]).
        find (\<lambda>d. CHR ''='' \<in> set d \<and> const_name_of d = const_name_of c) (seen @ [x]) = Some c"
    using first none eq by (auto simp: find_app)
  have 4: "\<forall>d \<in> set (seen @ [x]).
        CHR ''='' \<notin> set d \<or> const_name_of d \<in> const_name_of ` set (kept @ [x])"
    using cover by auto
  from 1 2 3 4 show ?thesis
    unfolding dedup_inv_def list_all_iff by blast
qed

lemma dedup_inv_step_skip:
  assumes inv: "dedup_inv seen_constants kept seen"
    and skip: "CHR ''='' \<notin> set x \<or> seen_constants (const_name_of x) \<noteq> None"
  shows "dedup_inv seen_constants kept (seen @ [x])"
proof -
  from inv have d: "dom seen_constants = const_name_of ` set kept"
    and dist: "distinct (map const_name_of kept)"
    and first: "\<forall>c \<in> set kept.
        find (\<lambda>d. CHR ''='' \<in> set d \<and> const_name_of d = const_name_of c) seen = Some c"
    and cover: "\<forall>d \<in> set seen. CHR ''='' \<notin> set d \<or> const_name_of d \<in> const_name_of ` set kept"
    by (auto simp: dedup_inv_def list_all_iff)
  from skip d have x: "CHR ''='' \<notin> set x \<or> const_name_of x \<in> const_name_of ` set kept"
    by (metis domIff)
  have 3: "\<forall>c \<in> set kept.
        find (\<lambda>d. CHR ''='' \<in> set d \<and> const_name_of d = const_name_of c) (seen @ [x]) = Some c"
    using first by (auto simp: find_app)
  have 4: "\<forall>d \<in> set (seen @ [x]).
        CHR ''='' \<notin> set d \<or> const_name_of d \<in> const_name_of ` set kept"
    using cover x by auto
  from d dist 3 4 show ?thesis
    unfolding dedup_inv_def list_all_iff by blast
qed

lemma add_constants_inv:
  "dedup_inv seen_constants kept seen \<Longrightarrow>
   add_constants xs (seen_constants, kept) = (seen', kept') \<Longrightarrow>
   dedup_inv seen' kept' (seen @ xs)"
proof (induction xs arbitrary: seen_constants kept seen)
  case Nil
  then show ?case by simp
next
  case (Cons x xs)
  show ?case
  proof (cases "CHR ''='' \<in> set x \<and> seen_constants (const_name_of x) = None")
    case True
    with Cons.prems(2) have
      "add_constants xs (seen_constants(const_name_of x \<mapsto> x), kept @ [x]) = (seen', kept')"
      by simp
    moreover have "dedup_inv (seen_constants(const_name_of x \<mapsto> x)) (kept @ [x]) (seen @ [x])"
      using dedup_inv_step_new[OF Cons.prems(1)] True by blast
    ultimately have "dedup_inv seen' kept' ((seen @ [x]) @ xs)" by (rule Cons.IH[rotated])
    then show ?thesis by simp
  next
    case False
    with Cons.prems(2) have "add_constants xs (seen_constants, kept) = (seen', kept')"
      by (auto split: if_splits)
    moreover have "CHR ''='' \<notin> set x \<or> seen_constants (const_name_of x) \<noteq> None"
      using False by simp
    from dedup_inv_step_skip[OF Cons.prems(1) this]
    have "dedup_inv seen_constants kept (seen @ [x])" .
    ultimately have "dedup_inv seen' kept' ((seen @ [x]) @ xs)" by (rule Cons.IH[rotated])
    then show ?thesis by simp
  qed
qed

lemma dedup_inv_init: "dedup_inv Map.empty [] []"
  by (simp add: dedup_inv_def)

lemma parse_files_inv:
  "list_all2 (\<lambda>f r. parse_file unparse f = Inr r) input_files results \<Longrightarrow>
   dedup_inv seen_constants (self_module_constants b) seen \<Longrightarrow>
   parse_files unparse input_files seen_constants b = (b', err) \<Longrightarrow>
   err = None \<and>
   (\<exists>seen'. dedup_inv seen' (self_module_constants b')
              (seen @ concat (map module_constants results)))"
proof (induction input_files results arbitrary: seen_constants b seen rule: list_all2_induct)
  case Nil
  then show ?case by auto
next
  case (Cons f fs r rs)
  obtain s1 c1 where ac: "add_constants (module_constants r)
          (seen_constants, self_module_constants b) = (s1, c1)"
    by (cases "add_constants (module_constants r) (seen_constants, self_module_constants b)")
  from add_constants_inv[OF Cons.prems(1) ac]
  have inv1: "dedup_inv s1 c1 (seen @ module_constants r)" .
  let ?b1 = "\<lparr>self_mcp_functions = self_mcp_functions b @ mcp_functions r,
              self_helper_functions = self_helper_functions b @ helper_functions r,
              self_module_constants = c1\<rparr>"
  from Cons.prems(2) Cons.hyps(1) ac
  have rec: "parse_files unparse fs s1 ?b1 = (b', err)" by simp
  have "dedup_inv s1 (self_module_constants ?b1) (seen @ module_constants r)"
    using inv1 by simp
  from Cons.IH[OF this rec] show ?case by simp
qed

lemma parse_files_no_entry_points:
  "\<forall>f \<in> set input_files. \<exists>r. parse_file unparse f = Inr r \<and> mcp_functions r = [] \<Longrightarrow>
   parse_files unparse input_files seen_constants b = (b', err) \<Longrightarrow>
   err = None \<and> self_mcp_functions b' = self_mcp_functions b"
proof (induction input_files arbitrary: seen_constants b)
  case Nil
  then show ?case by auto
next
  case (Cons f fs)
  from Cons.prems(1) obtain r where r: "parse_file unparse f = Inr r" "mcp_functions r = []"
    by auto
  obtain s1 c1 where ac: "add_constants (module_constants r)
          (seen_constants, self_module_constants b) = (s1, c1)"
    by (cases "add_constants (module_constants r) (seen_constants, self_module_constants b)")
  let ?b1 = "\<lparr>self_mcp_functions = self_mcp_functions b @ mcp_functions r,
              self_helper_functions = self_helper_functions b @ helper_functions r,
              self_module_constants = c1\<rparr>"
  from Cons.prems(2) r ac have rec: "parse_files unparse fs s1 ?b1 = (b', err)" by simp
  from Cons.prems(1) have "\<forall>f \<in> set fs. \<exists>r. parse_file unparse f = Inr r \<and> mcp_functions r = []"
    by simp
  from Cons.IH[OF this rec] r show ?case by simp
qed

text \<open>
  What the loop does guarantee, in terms of its own key: no two kept constants share a
  key, each is the first of its key, and every key met is kept.
\<close>

lemma kept_constants_first_per_key:
  assumes "list_all2 (\<lambda>f r. parse_file unparse f = Inr r) input_files results"
  shows "distinct (map const_name_of
            (self_module_constants (fst (parse_input_files unparse input_files init_builder))))
       \<and> (\<forall>c \<in> set (self_module_constants
                        (fst (parse_input_files unparse input_files init_builder))).
            find (\<lambda>d. CHR ''='' \<in> set d \<and> const_name_of d = const_name_of c)
              (concat (map module_constants results)) = Some c)
       \<and> (\<forall>d \<in> set (concat (map module_constants results)).
            CHR ''='' \<in> set d \<longrightarrow>
            const_name_of d \<in> const_name_of `
              set (self_module_constants
                     (fst (parse_input_files unparse input_files init_builder))))"
proof -
  obtain b' err where pf: "parse_files unparse input_files Map.empty init_builder = (b', err)"
    by (cases "parse_files unparse input_files Map.empty init_builder")
  have "dedup_inv Map.empty (self_module_constants init_builder) []"
    by (simp add: dedup_inv_init init_builder_def)
  from parse_files_inv[OF assms this pf] obtain seen' where
    inv: "dedup_inv seen' (self_module_constants b') (concat (map module_constants results))"
    by auto
  have "fst (parse_input_files unparse input_files init_builder) = b'"
    using pf by (simp add: parse_input_files_def split: option.splits)
  with inv show ?thesis
    unfolding dedup_inv_def list_all_iff by blast
qed

section \<open>Facts about the loops of one file\<close>

lemma same_entities_refl: "same_entities st st"
  by (simp add: same_entities_def)

lemma same_entities_trans:
  "same_entities a b \<Longrightarrow> same_entities b c \<Longrightarrow> same_entities a c"
  by (simp add: same_entities_def)

lemma same_entities_imports: "same_entities a b \<Longrightarrow> module_imports a = module_imports b"
  by (simp add: same_entities_def)

lemma same_entities_warnings: "same_entities (st\<lparr>warnings := w\<rparr>) st"
  by (simp add: same_entities_def)

subsection \<open>The loops of one file\<close>

lemma collect_imports_append:
  "collect_imports (xs @ ys) acc =
     (case collect_imports xs acc of Inl e \<Rightarrow> Inl e | Inr acc' \<Rightarrow> collect_imports ys acc')"
  by (induction xs arbitrary: acc) (auto split: sum.splits)

lemma collect_imports_skip:
  "import_line x = Inr [] \<Longrightarrow>
   collect_imports (pre @ x # post) acc = collect_imports (pre @ post) acc"
  by (simp add: collect_imports_append split: sum.splits)

lemma collect_imports_cong:
  "import_line x = import_line y \<Longrightarrow>
   collect_imports (pre @ x # post) acc = collect_imports (pre @ y # post) acc"
  by (simp add: collect_imports_append split: sum.splits)

lemma extract_constants_append:
  "extract_constants content (xs @ ys) st =
     extract_constants content ys (extract_constants content xs st)"
  by (induction content xs st rule: extract_constants.induct) auto

lemma classify_methods_append:
  "classify_methods unparse content (xs @ ys) st =
     classify_methods unparse content ys (classify_methods unparse content xs st)"
  by (induction unparse content xs st rule: classify_methods.induct) auto

lemma classify_nodes_append:
  "classify_nodes unparse content (xs @ ys) st =
     classify_nodes unparse content ys (classify_nodes unparse content xs st)"
  by (induction unparse content xs st rule: classify_nodes.induct) auto

subsection \<open>Each loop respects the comparison of extractions\<close>

lemma constant_targets_same:
  "same_entities st st' \<Longrightarrow>
   same_entities (constant_targets content ln targets st) (constant_targets content ln targets st')"
proof (induction content ln targets st arbitrary: st' rule: constant_targets.induct)
  case (2 content ln ident targets st)
  show ?case
  proof (cases "extract_constant content ln")
    case (Inl e)
    have "same_entities (st\<lparr>warnings := warnings st @ [FailedConstant ident e]\<rparr>)
            (st'\<lparr>warnings := warnings st' @ [FailedConstant ident e]\<rparr>)"
      using "2.prems" by (simp add: same_entities_def)
    from "2.IH"(1)[OF Inl this] Inl show ?thesis by simp
  next
    case (Inr r)
    show ?thesis
    proof (cases r)
      case None
      from "2.IH"(2)[OF Inr None "2.prems"] Inr None show ?thesis by simp
    next
      case (Some c)
      have "same_entities (st\<lparr>module_constants := module_constants st @ [c]\<rparr>)
              (st'\<lparr>module_constants := module_constants st' @ [c]\<rparr>)"
        using "2.prems" by (simp add: same_entities_def)
      from "2.IH"(3)[OF Inr Some this] Inr Some show ?thesis by simp
    qed
  qed
qed simp_all

lemma extract_constants_same:
  "same_entities st st' \<Longrightarrow>
   same_entities (extract_constants content tree st) (extract_constants content tree st')"
  by (induction content tree st arbitrary: st' rule: extract_constants.induct)
     (simp_all add: constant_targets_same)

lemma classify_same:
  "same_entities st st' \<Longrightarrow>
   same_entities (classify unparse content in_class node st)
     (classify unparse content in_class node st')"
  by (auto simp: classify_def same_entities_def split: sum.splits)

lemma classify_methods_same:
  "same_entities st st' \<Longrightarrow>
   same_entities (classify_methods unparse content body st)
     (classify_methods unparse content body st')"
  by (induction unparse content body st arbitrary: st' rule: classify_methods.induct)
     (simp_all add: classify_same)

lemma classify_nodes_same:
  "same_entities st st' \<Longrightarrow>
   same_entities (classify_nodes unparse content tree st)
     (classify_nodes unparse content tree st')"
  by (induction unparse content tree st arbitrary: st' rule: classify_nodes.induct)
     (simp_all add: classify_same classify_methods_same)

subsection \<open>The log only grows\<close>

lemma constant_targets_log:
  "w \<in> set (warnings st) \<Longrightarrow> w \<in> set (warnings (constant_targets content ln targets st))"
  by (induction content ln targets st rule: constant_targets.induct)
     (auto split: sum.splits option.splits)

lemma extract_constants_log:
  "w \<in> set (warnings st) \<Longrightarrow> w \<in> set (warnings (extract_constants content tree st))"
  by (induction content tree st rule: extract_constants.induct)
     (simp_all add: constant_targets_log)

lemma classify_log:
  "w \<in> set (warnings st) \<Longrightarrow> w \<in> set (warnings (classify unparse content in_class node st))"
  by (auto simp: classify_def split: sum.splits)

lemma classify_methods_log:
  "w \<in> set (warnings st) \<Longrightarrow> w \<in> set (warnings (classify_methods unparse content body st))"
  by (induction unparse content body st rule: classify_methods.induct)
     (simp_all add: classify_log)

lemma classify_nodes_log:
  "w \<in> set (warnings st) \<Longrightarrow> w \<in> set (warnings (classify_nodes unparse content tree st))"
  by (induction unparse content tree st rule: classify_nodes.induct)
     (simp_all add: classify_log classify_methods_log)

subsection \<open>Imports are fixed once collected\<close>

lemma constant_targets_imports:
  "module_imports (constant_targets content ln targets st) = module_imports st"
  by (induction content ln targets st rule: constant_targets.induct)
     (auto split: sum.splits option.splits)

lemma extract_constants_imports:
  "module_imports (extract_constants content tree st) = module_imports st"
  by (induction content tree st rule: extract_constants.induct)
     (simp_all add: constant_targets_imports)

lemma classify_imports:
  "module_imports (classify unparse content in_class node st) = module_imports st"
  by (auto simp: classify_def split: sum.splits)

lemma classify_methods_imports:
  "module_imports (classify_methods unparse content body st) = module_imports st"
  by (induction unparse content body st rule: classify_methods.induct)
     (simp_all add: classify_imports)

lemma classify_nodes_imports:
  "module_imports (classify_nodes unparse content tree st) = module_imports st"
  by (induction unparse content tree st rule: classify_nodes.induct)
     (simp_all add: classify_imports classify_methods_imports)

subsection \<open>A failing entity\<close>

lemma classify_failed:
  assumes "make_function unparse content (module_imports st) node = Inl e"
  shows "same_entities (classify unparse content in_class node st) st"
    and "in_class \<Longrightarrow>
           FailedMcpClassMethod (node_name node) e
             \<in> set (warnings (classify unparse content in_class node st))
         \<or> FailedHelperClassMethod (node_name node) e
             \<in> set (warnings (classify unparse content in_class node st))"
    and "\<not> in_class \<Longrightarrow>
           FailedMcpFunction (node_name node) e
             \<in> set (warnings (classify unparse content in_class node st))
         \<or> FailedHelperFunction (node_name node) e
             \<in> set (warnings (classify unparse content in_class node st))"
  using assms by (auto simp: classify_def same_entities_def)

lemma constant_targets_failed:
  assumes "extract_constant content ln = Inl e"
  shows "same_entities (constant_targets content ln targets st) st
       \<and> (\<forall>ident. Name ident \<in> set targets \<longrightarrow>
             FailedConstant ident e \<in> set (warnings (constant_targets content ln targets st)))"
  using assms
proof (induction content ln targets st rule: constant_targets.induct)
  case (1 content ln st)
  then show ?case by (simp add: same_entities_refl)
next
  case (2 content ln ident targets st)
  let ?st1 = "st\<lparr>warnings := warnings st @ [FailedConstant ident e]\<rparr>"
  from "2.IH"(1)[OF "2.prems" "2.prems"] have
    ih: "same_entities (constant_targets content ln targets ?st1) ?st1"
        "\<forall>i. Name i \<in> set targets \<longrightarrow>
           FailedConstant i e \<in> set (warnings (constant_targets content ln targets ?st1))"
    by auto
  have here: "FailedConstant ident e \<in> set (warnings (constant_targets content ln targets ?st1))"
    by (rule constant_targets_log) simp
  have "same_entities (constant_targets content ln targets ?st1) st"
    using ih(1) by (simp add: same_entities_def)
  with ih(2) here "2.prems" show ?case by auto
qed (auto simp: same_entities_refl)

lemma parse_file_replace:
  assumes ix: "collect_imports (pre @ xs @ post) [] = Inr imports"
    and iy: "collect_imports (pre @ ys @ post) [] = Inr imports"
    and cst: "\<And>st. same_entities (extract_constants content xs st)
                        (extract_constants content ys st)"
    and cls: "\<And>st. module_imports st = imports \<Longrightarrow>
                same_entities (classify_nodes unparse content xs st)
                  (classify_nodes unparse content ys st)"
  shows "\<exists>r r'. parse_file unparse (Inr (content, pre @ xs @ post)) = Inr r
           \<and> parse_file unparse (Inr (content, pre @ ys @ post)) = Inr r'
           \<and> same_entities r r'"
proof -
  let ?init = "\<lparr>mcp_functions = [], helper_functions = [], module_constants = [],
                module_imports = imports, warnings = []\<rparr>"
  let ?cx = "extract_constants content (pre @ xs @ post) ?init"
  let ?cy = "extract_constants content (pre @ ys @ post) ?init"
  have c: "same_entities ?cx ?cy"
    unfolding extract_constants_append
    by (rule same_entities_trans[OF extract_constants_same[OF cst] same_entities_refl])
  let ?ax = "classify_nodes unparse content pre ?cx"
  let ?ay = "classify_nodes unparse content pre ?cy"
  have a: "same_entities ?ax ?ay" by (rule classify_nodes_same[OF c])
  have "module_imports ?ax = imports"
    by (simp add: classify_nodes_imports extract_constants_imports)
  from cls[OF this] have
    "same_entities (classify_nodes unparse content xs ?ax) (classify_nodes unparse content ys ?ax)" .
  moreover have
    "same_entities (classify_nodes unparse content ys ?ax) (classify_nodes unparse content ys ?ay)"
    by (rule classify_nodes_same[OF a])
  ultimately have
    "same_entities (classify_nodes unparse content xs ?ax) (classify_nodes unparse content ys ?ay)"
    by (rule same_entities_trans)
  then have "same_entities (classify_nodes unparse content (pre @ xs @ post) ?cx)
               (classify_nodes unparse content (pre @ ys @ post) ?cy)"
    unfolding classify_nodes_append by (rule classify_nodes_same)
  with ix iy show ?thesis by (simp add: parse_file_def)
qed

lemma parse_file_log_constants:
  assumes ix: "collect_imports (pre @ xs @ post) [] = Inr imports"
    and w: "\<And>st. w \<in> set (warnings (extract_constants content xs st))"
    and r: "parse_file unparse (Inr (content, pre @ xs @ post)) = Inr r"
  shows "w \<in> set (warnings r)"
proof -
  let ?init = "\<lparr>mcp_functions = [], helper_functions = [], module_constants = [],
                module_imports = imports, warnings = []\<rparr>"
  let ?cx = "extract_constants content (pre @ xs @ post) ?init"
  from ix r have r_eq: "r = classify_nodes unparse content (pre @ xs @ post) ?cx"
    by (simp add: parse_file_def)
  have "w \<in> set (warnings ?cx)"
    unfolding extract_constants_append by (rule extract_constants_log) (rule w)
  then show ?thesis unfolding r_eq by (rule classify_nodes_log)
qed

lemma import_line_no_import:
  "import_line (FunctionDef node) = Inr []"
  "import_line (ClassDef c body) = Inr []"
  "import_line (Assign targets ln) = Inr []"
  "import_line (AnnAssign target ann ln) = Inr []"
  "import_line OtherStmt = Inr []"
  "import_line (ImportFrom None names) = Inr []"
  by (simp_all add: import_line_def)

lemma parse_file_skip:
  assumes "import_line x = Inr []"
    and "\<And>st. extract_constants content [x] st = st"
    and "\<And>st. classify_nodes unparse content [x] st = st"
  shows "parse_file unparse (Inr (content, pre @ x # post))
           = parse_file unparse (Inr (content, pre @ post))"
proof -
  have "\<And>st. extract_constants content (pre @ x # post) st
              = extract_constants content (pre @ post) st"
    using assms(2) extract_constants_append[of content pre "[x] @ post"]
      extract_constants_append[of content "[x]" post]
    by (simp add: extract_constants_append)
  moreover have "\<And>st. classify_nodes unparse content (pre @ x # post) st
              = classify_nodes unparse content (pre @ post) st"
    using assms(3) classify_nodes_append[of unparse content pre "[x] @ post"]
      classify_nodes_append[of unparse content "[x]" post]
    by (simp add: classify_nodes_append)
  ultimately show ?thesis
    by (simp add: parse_file_def collect_imports_skip[OF assms(1)] cong: sum.case_cong)
qed

lemma constant_targets_no_name:
  "\<forall>ident. Name ident \<notin> set targets \<Longrightarrow> constant_targets content ln targets st = st"
  by (induction content ln targets st rule: constant_targets.induct) auto

lemma import_line_alias:
  "import_line (Import (map (\<lambda>a. Alias (alias_name a) None) names)) = import_line (Import names)"
  "import_line (ImportFrom m (map (\<lambda>a. Alias (alias_name a) None) names))
     = import_line (ImportFrom m names)"
  by (auto simp: import_line_def comp_def split: option.splits list.splits)

section \<open>The example inputs, evaluated\<close>

lemma first_file_parsed:
  "parse_file Inr first_file =
     Inr \<lparr>mcp_functions =
            [\<lparr>name = ''f'', docstring = [], signature = ''()'',
              source_code = join_str [CHR 0x0A] [''@mcp.tool()'', ''def f():'', ''    pass'', []],
              line_number = 3, func_module_imports = []\<rparr>],
          helper_functions = [], module_constants = [''X = 1''], module_imports = [],
          warnings = []\<rparr>"
  by code_simp

lemma second_file_parsed:
  "parse_file Inr second_file =
     Inr \<lparr>mcp_functions = [], helper_functions = [], module_constants = [''X = 2''],
          module_imports = [], warnings = []\<rparr>"
  by code_simp

lemma two_files_constants:
  "self_module_constants (fst (parse_input_files Inr [first_file, second_file] init_builder))
     = [''X = 1'']"
  by code_simp

lemma helper_file_parsed:
  "parse_file Inr helper_file =
     Inr \<lparr>mcp_functions = [],
          helper_functions =
            [\<lparr>name = ''helper'', docstring = [], signature = ''()'',
              source_code = join_str [CHR 0x0A] [''def helper():'', ''    pass'', []],
              line_number = 1, func_module_imports = []\<rparr>],
          module_constants = [], module_imports = [], warnings = []\<rparr>"
  by code_simp

lemma entry_point_reaches_generation:
  "fst (snd (build Inr idle_run [first_file] init_builder)) = ParseInputFiles # later_steps
   \<and> snd (snd (build Inr idle_run [first_file] init_builder)) = None"
  by code_simp

lemma annotated_rest_parsed:
  "parse_file Inr (Inr (annotated_text, [] @ [Assign [Name ''Y''] 3])) =
     Inr \<lparr>mcp_functions = [], helper_functions = [], module_constants = [''Y = 2''],
          module_imports = [], warnings = []\<rparr>"
  by code_simp

section \<open>The claims\<close>

subsection \<open>C1\<close>

text \<open>
  Claim C1, as amended. The claim says that the signature of a method omits a first
  parameter named \<^verbatim>\<open>self\<close>. The synthesizer has no such rule: it renders every entry
  of \<^verbatim>\<open>node.args.args\<close>, in order, each rendered parameter starting with its name, and
  wraps the list in parentheses. So a first parameter named \<^verbatim>\<open>self\<close> stays in the
  signature, and the marked method \<^verbatim>\<open>m(self, x: str)\<close> gets \<^verbatim>\<open>(self, x: str)\<close>.
\<close>

theorem C1_every_regular_parameter_kept:
  assumes "build_signature_string unparse node = Inr s"
  shows "\<exists>ss tail. arg_strs unparse (args (node_args node)) = Inr ss
           \<and> s = ''('' @ join_str '', '' ss @ '')'' @ tail
           \<and> list_all2 (\<lambda>p a. startswith p (arg a)) ss (args (node_args node))"
proof -
  from assms obtain ss where ss: "arg_strs unparse (args (node_args node)) = Inr ss"
    by (auto simp: build_signature_string_def split: sum.splits)
  with assms have "\<exists>tail. s = ''('' @ join_str '', '' ss @ '')'' @ tail"
    by (auto simp: build_signature_string_def split: sum.splits option.splits)
  with ss arg_strs_all2[OF ss] show ?thesis by blast
qed

text \<open>
  The class of the claim: one entry point named \<^verbatim>\<open>m\<close>, with signature
  \<^verbatim>\<open>(self, x: str)\<close> and not \<^verbatim>\<open>(x: str)\<close>.
\<close>

theorem C1_self_is_kept_counterexample:
  "parse_file Inr class_C_file =
     Inr \<lparr>mcp_functions =
            [\<lparr>name = ''m'', docstring = [], signature = ''(self, x: str)'',
              source_code =
                join_str [CHR 0x0A]
                  [''    @mcp.tool()'', ''    def m(self, x: str):'', ''        pass'', []],
              line_number = 3, func_module_imports = []\<rparr>],
          helper_functions = [], module_constants = [], module_imports = [], warnings = []\<rparr>
   \<and> build_signature_string Inr method_m \<noteq> Inr ''(x: str)''"
  by code_simp

theorem C1_every_regular_parameter_kept_witness:
  "build_signature_string Inr method_m = Inr ''(self, x: str)''
   \<and> (\<exists>ss tail. arg_strs Inr (args (node_args method_m)) = Inr ss
           \<and> ''(self, x: str)'' = ''('' @ join_str '', '' ss @ '')'' @ tail
           \<and> list_all2 (\<lambda>p a. startswith p (arg a)) ss (args (node_args method_m)))"
proof -
  have h: "build_signature_string Inr method_m = Inr ''(self, x: str)''" by code_simp
  from h C1_every_regular_parameter_kept[OF h] show ?thesis by blast
qed

subsection \<open>C2\<close>

text \<open>
  Claim C2, as amended. The claim says that a blank line stops the backward decorator
  scan. The loop breaks only on a line that is neither empty, nor a decorator line (its
  trimmed text starts with \<^verbatim>\<open>@\<close>), nor a comment. With the definition on line
  \<open>k + 1\<close>, the span starts at an index \<open>s\<close> that is fixed by four facts: \<open>s\<close> is
  the index of the \<^verbatim>\<open>def\<close> line or of a decorator line; no line from \<open>s\<close> up to the
  definition stops the scan; and every decorator line above \<open>s\<close> lies behind a line
  that stops it. So the span starts at the topmost decorator line that the scan reaches,
  and at the \<^verbatim>\<open>def\<close> line when it reaches none. Two consequences are stated with them:
  a decorator line separated from the definition only by blank, comment or decorator
  lines is inside the span, and every stopping line is above the span.
\<close>

theorem C2_span_starts_at_topmost_reachable_decorator:
  assumes "lineno node = Suc k" "k < length lines"
  shows "\<exists>s e. function_span lines node = Inr (int s, e)
           \<and> s \<le> k
           \<and> (s = k \<or> startswith (strip (lines ! s)) ''@'')
           \<and> (\<forall>j. s \<le> j \<and> j < k \<longrightarrow>
                  strip (lines ! j) = [] \<or> startswith (strip (lines ! j)) ''@''
                  \<or> startswith (strip (lines ! j)) ''#'')
           \<and> (\<forall>d. d < s \<and> startswith (strip (lines ! d)) ''@'' \<longrightarrow>
                  (\<exists>j. d < j \<and> j < s \<and> strip (lines ! j) \<noteq> []
                       \<and> \<not> startswith (strip (lines ! j)) ''@''
                       \<and> \<not> startswith (strip (lines ! j)) ''#''))
           \<and> (\<forall>d. d < k \<and> startswith (strip (lines ! d)) ''@''
                    \<and> (\<forall>j. d < j \<and> j < k \<longrightarrow>
                           strip (lines ! j) = [] \<or> startswith (strip (lines ! j)) ''#''
                           \<or> startswith (strip (lines ! j)) ''@'') \<longrightarrow> s \<le> d)
           \<and> (\<forall>d. d < k \<and> strip (lines ! d) \<noteq> [] \<and> \<not> startswith (strip (lines ! d)) ''@''
                    \<and> \<not> startswith (strip (lines ! d)) ''#'' \<longrightarrow> d < s)"
proof -
  let ?blank = "\<lambda>j. strip (lines ! j) = []"
  let ?dec = "\<lambda>j. startswith (strip (lines ! j)) ''@''"
  let ?com = "\<lambda>j. startswith (strip (lines ! j)) ''#''"
  from function_span_defined[OF assms] obtain r where
    r: "decorator_scan lines k (int k) = Inr r"
    and sp: "function_span lines node =
               Inr (r, end_line_from (starts_definition (indent_of (lines ! k))) lines (Suc k))"
    by blast
  from decorator_scan_bound[OF r] have rb: "0 \<le> r" "r \<le> int k" by auto
  define s where "s = nat r"
  with rb have rs: "r = int s" and sk: "s \<le> k" by auto
  have dec: "s = k \<or> ?dec s"
    using decorator_scan_lands_on_decorator[OF r] rs by auto
  have pass: "?blank j \<or> ?dec j \<or> ?com j" if "s \<le> j" "j < k" for j
    using decorator_scan_passes_no_stop[OF r _ _ that(2)] that(1) rs by simp
  have miss: "\<exists>j. d < j \<and> j < s \<and> \<not> ?blank j \<and> \<not> ?dec j \<and> \<not> ?com j"
    if "d < s" "?dec d" for d
  proof -
    from that(1) have "int d < r" "d < k" using rs sk by auto
    from decorator_scan_misses_only_behind_stop[OF r _ this that(2)] obtain j where
      j: "d < j" "j < k" "\<not> ?blank j" "\<not> ?dec j" "\<not> ?com j"
      by auto
    have "j < s"
    proof (rule ccontr)
      assume "\<not> j < s"
      then have "s \<le> j" by simp
      from pass[OF this j(2)] j(3,4,5) show False by simp
    qed
    with j show ?thesis by (intro exI[of _ j]) simp
  qed
  have incl: "s \<le> d"
    if "d < k" "?dec d" "\<forall>j. d < j \<and> j < k \<longrightarrow> ?blank j \<or> ?com j \<or> ?dec j" for d
  proof (rule ccontr)
    assume "\<not> s \<le> d"
    then have "d < s" by simp
    from miss[OF this that(2)] obtain j where
      j: "d < j" "j < s" "\<not> ?blank j" "\<not> ?dec j" "\<not> ?com j" by auto
    from j(1,2) sk have "d < j \<and> j < k" by simp
    with that(3) have "?blank j \<or> ?com j \<or> ?dec j" by simp
    with j(3,4,5) show False by simp
  qed
  have stop: "d < s" if "d < k" "\<not> ?blank d" "\<not> ?dec d" "\<not> ?com d" for d
  proof (rule ccontr)
    assume "\<not> d < s"
    then have "s \<le> d" by simp
    from pass[OF this that(1)] that(2,3,4) show False by simp
  qed
  from sp rs have span: "function_span lines node =
      Inr (int s, end_line_from (starts_definition (indent_of (lines ! k))) lines (Suc k))"
    by simp
  show ?thesis
  proof (rule exI[of _ s],
      rule exI[of _ "end_line_from (starts_definition (indent_of (lines ! k))) lines (Suc k)"],
      intro conjI allI impI)
    show "function_span lines node =
      Inr (int s, end_line_from (starts_definition (indent_of (lines ! k))) lines (Suc k))"
      by (rule span)
    show "s \<le> k" by (rule sk)
    show "s = k \<or> ?dec s" by (rule dec)
    show "?blank j \<or> ?dec j \<or> ?com j" if "s \<le> j \<and> j < k" for j
      using that pass by simp
    show "\<exists>j. d < j \<and> j < s \<and> \<not> ?blank j \<and> \<not> ?dec j \<and> \<not> ?com j"
      if "d < s \<and> ?dec d" for d
      using that miss by simp
    show "s \<le> d"
      if "d < k \<and> ?dec d \<and> (\<forall>j. d < j \<and> j < k \<longrightarrow> ?blank j \<or> ?com j \<or> ?dec j)" for d
      using that incl[of d] by simp
    show "d < s" if "d < k \<and> \<not> ?blank d \<and> \<not> ?dec d \<and> \<not> ?com d" for d
      using that stop[of d] by simp
  qed
qed

text \<open>
  A decorator, a blank line and the definition: the span starts at the decorator
  (index 0), and the recovered text holds the decorator and the blank line.
\<close>

theorem C2_blank_line_counterexample:
  "function_span (split_str CHR 0x0A spaced_text) spaced_f = Inr (0, 4)
   \<and> extract_function_source spaced_text spaced_f =
       Inr (join_str [CHR 0x0A] [''@mcp.tool()'', [], ''def f():'', ''    pass''])"
  by code_simp

text \<open>
  A decorator, a blank line and the definition: the span starts at the decorator. A
  comment and blank lines above an undecorated definition: the span starts at the
  \<^verbatim>\<open>def\<close> line itself (index 4), not at a blank or comment line.
\<close>

theorem C2_span_starts_at_topmost_reachable_decorator_witness:
  "function_span (split_str CHR 0x0A spaced_text) spaced_f = Inr (0, 4)
   \<and> function_span (split_str CHR 0x0A commented_text) commented_f = Inr (4, 6)
   \<and> (\<exists>s e. function_span (split_str CHR 0x0A spaced_text) spaced_f = Inr (int s, e) \<and> s \<le> 0)
   \<and> (\<exists>s e. function_span (split_str CHR 0x0A commented_text) commented_f = Inr (int s, e)
          \<and> 0 < s \<and> (s = 4 \<or> startswith (strip (split_str CHR 0x0A commented_text ! s)) ''@''))"
proof -
  have v1: "function_span (split_str CHR 0x0A spaced_text) spaced_f = Inr (0, 4)"
    by code_simp
  have v2: "function_span (split_str CHR 0x0A commented_text) commented_f = Inr (4, 6)"
    by code_simp
  have lines: "split_str CHR 0x0A spaced_text = [''@mcp.tool()'', [], ''def f():'', ''    pass'']"
    by code_simp
  have h1: "lineno spaced_f = Suc 2" by (simp add: spaced_f_def def_node_def)
  have h2: "2 < length (split_str CHR 0x0A spaced_text)" by (simp add: lines)
  have gap: "\<forall>j. 0 < j \<and> j < 2 \<longrightarrow>
           strip (split_str CHR 0x0A spaced_text ! j) = []
           \<or> startswith (strip (split_str CHR 0x0A spaced_text ! j)) ''#''
           \<or> startswith (strip (split_str CHR 0x0A spaced_text ! j)) ''@''"
  proof (intro allI impI)
    fix j :: nat assume "0 < j \<and> j < 2"
    then have "j = 1" by simp
    then show "strip (split_str CHR 0x0A spaced_text ! j) = []
           \<or> startswith (strip (split_str CHR 0x0A spaced_text ! j)) ''#''
           \<or> startswith (strip (split_str CHR 0x0A spaced_text ! j)) ''@''"
      by (simp add: lines strip_def lstrip_def rstrip_def)
  qed
  have dec: "startswith (strip (split_str CHR 0x0A spaced_text ! 0)) ''@''"
    unfolding lines by code_simp
  from C2_span_starts_at_topmost_reachable_decorator[OF h1 h2] obtain s e where
    sp: "function_span (split_str CHR 0x0A spaced_text) spaced_f = Inr (int s, e)"
    and incl: "\<forall>d. d < 2 \<and> startswith (strip (split_str CHR 0x0A spaced_text ! d)) ''@''
                 \<and> (\<forall>j. d < j \<and> j < 2 \<longrightarrow>
                        strip (split_str CHR 0x0A spaced_text ! j) = []
                        \<or> startswith (strip (split_str CHR 0x0A spaced_text ! j)) ''#''
                        \<or> startswith (strip (split_str CHR 0x0A spaced_text ! j)) ''@'')
                 \<longrightarrow> s \<le> d"
    by (elim exE conjE) (rule that)
  from dec gap have pre: "(0::nat) < 2 \<and> startswith (strip (split_str CHR 0x0A spaced_text ! 0)) ''@''
                 \<and> (\<forall>j. 0 < j \<and> j < 2 \<longrightarrow>
                        strip (split_str CHR 0x0A spaced_text ! j) = []
                        \<or> startswith (strip (split_str CHR 0x0A spaced_text ! j)) ''#''
                        \<or> startswith (strip (split_str CHR 0x0A spaced_text ! j)) ''@'')"
    by simp
  have "s \<le> 0" by (rule mp[OF spec[OF incl, of 0] pre])
  with sp have A: "\<exists>s e. function_span (split_str CHR 0x0A spaced_text) spaced_f = Inr (int s, e)
      \<and> s \<le> 0"
    by (intro exI[of _ s] exI[of _ e]) simp
  have clines: "split_str CHR 0x0A commented_text =
      [''x = 1'', [], [], ''# about f'', ''def f():'', ''    pass'']"
    by code_simp
  have c1: "lineno commented_f = Suc 4" by (simp add: commented_f_def def_node_def)
  have c2: "4 < length (split_str CHR 0x0A commented_text)" by (simp add: clines)
  have stopper: "(0::nat) < 4 \<and> strip (split_str CHR 0x0A commented_text ! 0) \<noteq> []
      \<and> \<not> startswith (strip (split_str CHR 0x0A commented_text ! 0)) ''@''
      \<and> \<not> startswith (strip (split_str CHR 0x0A commented_text ! 0)) ''#''"
    unfolding clines by code_simp
  from C2_span_starts_at_topmost_reachable_decorator[OF c1 c2] obtain t e' where
    tp: "function_span (split_str CHR 0x0A commented_text) commented_f = Inr (int t, e')"
    and land: "t = 4 \<or> startswith (strip (split_str CHR 0x0A commented_text ! t)) ''@''"
    and stop: "\<forall>d. d < 4 \<and> strip (split_str CHR 0x0A commented_text ! d) \<noteq> []
                 \<and> \<not> startswith (strip (split_str CHR 0x0A commented_text ! d)) ''@''
                 \<and> \<not> startswith (strip (split_str CHR 0x0A commented_text ! d)) ''#''
                 \<longrightarrow> d < t"
    by (elim exE conjE) (rule that)
  have "0 < t" by (rule mp[OF spec[OF stop, of 0] stopper])
  with tp land have B: "\<exists>s e. function_span (split_str CHR 0x0A commented_text) commented_f
        = Inr (int s, e)
      \<and> 0 < s \<and> (s = 4 \<or> startswith (strip (split_str CHR 0x0A commented_text ! s)) ''@'')"
    by (intro exI[of _ t] exI[of _ e']) simp
  from v1 v2 A B show ?thesis by (intro conjI)
qed

subsection \<open>C3\<close>

text \<open>
  Claim C3, as amended. The claim lets an assignment line end a function's span. For a
  function the forward loop tests only for \<^verbatim>\<open>def \<close>, \<^verbatim>\<open>class \<close> and \<^verbatim>\<open>@\<close>
  (\<open>starts_definition\<close>); the assignment test belongs to the constant extractor alone.
  The span ends just before the first line at or after index \<open>lineno\<close> that is not
  blank, is indented no deeper than the \<^verbatim>\<open>def\<close> line and starts with one of the three
  markers, and at the end of the text when there is none.
\<close>

theorem C3_span_ends_at_next_definition:
  assumes "function_span lines node = Inr (s, e)"
  shows "\<exists>def_line. py_index lines (int (lineno node) - 1) = Inr def_line
           \<and> lineno node \<le> e \<and> e \<le> length lines
           \<and> (\<forall>j. lineno node \<le> j \<and> j < e \<longrightarrow>
                  \<not> starts_definition (indent_of def_line) (lines ! j))
           \<and> (e < length lines \<longrightarrow> starts_definition (indent_of def_line) (lines ! e))"
proof -
  from assms obtain def_line where
    dl: "py_index lines (int (lineno node) - 1) = Inr def_line"
    and e: "e = end_line_from (starts_definition (indent_of def_line)) lines (lineno node)"
    by (auto simp: function_span_def split: sum.splits)
  from dl have "lineno node \<le> length lines"
    by (auto simp: py_index_def split: if_splits)
  from end_line_from_spec[OF this, of "starts_definition (indent_of def_line)"] dl e
  show ?thesis by blast
qed

text \<open>
  A function, then \<^verbatim>\<open>X = 1\<close>, then a second function: the span of the first function
  runs up to the second \<^verbatim>\<open>def\<close> and its text includes the assignment.
\<close>

theorem C3_assignment_does_not_end_span_counterexample:
  "function_span (split_str CHR 0x0A trailing_text) trailing_f = Inr (0, 3)
   \<and> extract_function_source trailing_text trailing_f =
       Inr (join_str [CHR 0x0A] [''def f():'', ''    pass'', ''X = 1''])"
  by code_simp

theorem C3_span_ends_at_next_definition_witness:
  "function_span (split_str CHR 0x0A trailing_text) trailing_f = Inr (0, 3)
   \<and> (\<exists>def_line.
         py_index (split_str CHR 0x0A trailing_text) (int (lineno trailing_f) - 1) = Inr def_line
         \<and> lineno trailing_f \<le> 3 \<and> 3 \<le> length (split_str CHR 0x0A trailing_text)
         \<and> (\<forall>j. lineno trailing_f \<le> j \<and> j < 3 \<longrightarrow>
                \<not> starts_definition (indent_of def_line) (split_str CHR 0x0A trailing_text ! j))
         \<and> (3 < length (split_str CHR 0x0A trailing_text) \<longrightarrow>
                starts_definition (indent_of def_line) (split_str CHR 0x0A trailing_text ! 3)))"
proof -
  have h: "function_span (split_str CHR 0x0A trailing_text) trailing_f = Inr (0, 3)"
    by code_simp
  from h C3_span_ends_at_next_definition[OF h] show ?thesis by blast
qed

subsection \<open>C4\<close>

text \<open>
  Claim C4. The claim says that the start line of an entity is the first line of its
  span: the \<^verbatim>\<open>def\<close> line without decorators, the first decorator line otherwise. The
  constructor of \<^verbatim>\<open>MCPFunction\<close> pairs the two that way (\<^verbatim>\<open>inspect.getsourcelines\<close> gives
  the first line of the text \<^verbatim>\<open>inspect.getsource\<close> returns), but \<^verbatim>\<open>parse_file\<close> then
  stores the text from the decorator on and sets \<^verbatim>\<open>line_number\<close> to \<^verbatim>\<open>node.lineno\<close>, the
  line of the \<^verbatim>\<open>def\<close>. For a marked function with its decorator on line 1 and its
  \<^verbatim>\<open>def\<close> on line 2, the span starts at index 0, which is line 1, and the stored text
  starts with the decorator, while \<^verbatim>\<open>line_number\<close> is 2.
\<close>

theorem C4_line_number_is_not_span_start:
  "parse_file Inr decorated_file =
     Inr \<lparr>mcp_functions =
            [\<lparr>name = ''f'', docstring = [], signature = ''(a: int) -> int'',
              source_code =
                join_str [CHR 0x0A]
                  [''@mcp.tool()'', ''def f(a: int) -> int:'', ''    return a'', []],
              line_number = 2, func_module_imports = []\<rparr>],
          helper_functions = [], module_constants = [], module_imports = [], warnings = []\<rparr>
   \<and> function_span (split_str CHR 0x0A decorated_text) decorated_f = Inr (0, 4)"
  by code_simp

subsection \<open>C5\<close>

text \<open>
  Claim C5. The claim says that a run keeps at most one constant per name, the first
  one seen. The builder's key for a constant is the text before its first \<^verbatim>\<open>=\<close>. For
  the chained assignment \<^verbatim>\<open>A = B = 3\<close> the parser yields the text once per target, \<open>A\<close>
  and \<open>B\<close>, and the key of both copies is \<open>A\<close>; a later file's \<^verbatim>\<open>B = 4\<close> has the
  unseen key \<open>B\<close> and is kept. The resulting list binds \<open>B\<close> twice, and the later
  binding is the one in force after both.
\<close>

theorem C5_chained_assignment_is_rebound:
  "parse_file Inr chained_file =
     Inr \<lparr>mcp_functions =
            [\<lparr>name = ''f'', docstring = [], signature = ''()'',
              source_code = join_str [CHR 0x0A] [''@mcp.tool()'', ''def f():'', ''    pass'', []],
              line_number = 3, func_module_imports = []\<rparr>],
          helper_functions = [], module_constants = [''A = B = 3'', ''A = B = 3''],
          module_imports = [], warnings = []\<rparr>
   \<and> parse_file Inr rebinding_file =
     Inr \<lparr>mcp_functions = [], helper_functions = [], module_constants = [''B = 4''],
          module_imports = [], warnings = []\<rparr>
   \<and> self_module_constants (fst (parse_input_files Inr [chained_file, rebinding_file] init_builder))
       = [''A = B = 3'', ''B = 4'']
   \<and> map const_name_of [''A = B = 3'', ''A = B = 3'', ''B = 4''] = [''A'', ''A'', ''B'']
   \<and> snd (parse_input_files Inr [chained_file, rebinding_file] init_builder) = None"
  by code_simp

subsection \<open>C6\<close>

text \<open>
  Claim C6. When every input file parses and none yields an entry point, \<^verbatim>\<open>build\<close>
  raises the \<^verbatim>\<open>ValueError\<close> of \<^verbatim>\<open>_parse_input_files\<close>, and the only step entered is the
  parsing step: no generation step runs, whatever the generators would do.
\<close>

theorem C6_no_entry_point_aborts_before_generation:
  assumes "\<forall>f \<in> set input_files. \<exists>r. parse_file unparse f = Inr r \<and> mcp_functions r = []"
    and "self_mcp_functions b = []"
  shows "\<exists>b'. build unparse run input_files b =
           (b', [ParseInputFiles], Some (ValueError ''No MCP functions found in input files''))"
proof -
  obtain b' err where pf: "parse_files unparse input_files Map.empty b = (b', err)"
    by (cases "parse_files unparse input_files Map.empty b")
  from parse_files_no_entry_points[OF assms(1) pf] assms(2)
  have "err = None" "self_mcp_functions b' = []" by auto
  with pf show ?thesis
    by (simp add: build_def parse_input_files_def)
qed

theorem C6_no_entry_point_aborts_before_generation_witness:
  "\<exists>b'. build Inr idle_run [helper_file] init_builder =
           (b', [ParseInputFiles], Some (ValueError ''No MCP functions found in input files''))"
proof -
  have h1: "\<forall>f \<in> set [helper_file]. \<exists>r. parse_file Inr f = Inr r \<and> mcp_functions r = []"
    by (simp add: helper_file_parsed)
  have h2: "self_mcp_functions init_builder = []" by (simp add: init_builder_def)
  from C6_no_entry_point_aborts_before_generation[OF h1 h2] show ?thesis .
qed

subsection \<open>C7\<close>

text \<open>
  Claim C7. When building the entity of a top-level function or of a method raises, or
  extracting the constant of an assignment raises, \<^verbatim>\<open>parse_file\<close> still returns; what it
  returns holds the same entities, constants and imports as for the file without that
  one definition, and the log holds the warning for it.
\<close>

theorem C7_failed_entity_is_dropped:
  assumes "collect_imports (pre @ post) [] = Inr imports"
  shows "(make_function unparse content imports node = Inl e \<longrightarrow>
            (\<exists>r r'. parse_file unparse (Inr (content, pre @ FunctionDef node # post)) = Inr r
               \<and> parse_file unparse (Inr (content, pre @ post)) = Inr r'
               \<and> same_entities r r'
               \<and> (FailedMcpFunction (node_name node) e \<in> set (warnings r)
                    \<or> FailedHelperFunction (node_name node) e \<in> set (warnings r))))
       \<and> (make_function unparse content imports node = Inl e \<longrightarrow>
            (\<exists>r r'. parse_file unparse
                       (Inr (content, pre @ ClassDef c (before @ FunctionDef node # after) # post))
                       = Inr r
               \<and> parse_file unparse (Inr (content, pre @ ClassDef c (before @ after) # post))
                       = Inr r'
               \<and> same_entities r r'
               \<and> (FailedMcpClassMethod (node_name node) e \<in> set (warnings r)
                    \<or> FailedHelperClassMethod (node_name node) e \<in> set (warnings r))))
       \<and> (extract_constant content ln = Inl e' \<longrightarrow>
            (\<exists>r r'. parse_file unparse (Inr (content, pre @ Assign targets ln # post)) = Inr r
               \<and> parse_file unparse (Inr (content, pre @ post)) = Inr r'
               \<and> same_entities r r'
               \<and> (\<forall>ident. Name ident \<in> set targets \<longrightarrow>
                     FailedConstant ident e' \<in> set (warnings r))))"
proof (intro conjI impI)
  assume fail: "make_function unparse content imports node = Inl e"
  have ix: "collect_imports (pre @ [FunctionDef node] @ post) [] = Inr imports"
    using assms by (simp add: collect_imports_skip import_line_no_import)
  have iy: "collect_imports (pre @ [] @ post) [] = Inr imports" using assms by simp
  have cls: "\<And>st. module_imports st = imports \<Longrightarrow>
      same_entities (classify_nodes unparse content [FunctionDef node] st)
        (classify_nodes unparse content [] st)"
    using fail by (simp add: classify_failed(1))
  from parse_file_replace[OF ix iy _ cls] obtain r r' where
    r: "parse_file unparse (Inr (content, pre @ [FunctionDef node] @ post)) = Inr r"
       "parse_file unparse (Inr (content, pre @ [] @ post)) = Inr r'" "same_entities r r'"
    by (auto simp: same_entities_refl)
  have "FailedMcpFunction (node_name node) e \<in> set (warnings r)
      \<or> FailedHelperFunction (node_name node) e \<in> set (warnings r)"
  proof -
    let ?init = "\<lparr>mcp_functions = [], helper_functions = [], module_constants = [],
                  module_imports = imports, warnings = []\<rparr>"
    let ?ax = "classify_nodes unparse content pre
                 (extract_constants content (pre @ [FunctionDef node] @ post) ?init)"
    have ia: "module_imports ?ax = imports"
      by (simp add: classify_nodes_imports extract_constants_imports)
    from ix r(1) have r_eq: "r = classify_nodes unparse content post
          (classify unparse content False node ?ax)"
      by (simp add: parse_file_def classify_nodes_append)
    from fail ia have "make_function unparse content (module_imports ?ax) node = Inl e" by simp
    from classify_failed(3)[OF this, of False] show ?thesis
      unfolding r_eq by (auto intro: classify_nodes_log)
  qed
  with r show "\<exists>r r'. parse_file unparse (Inr (content, pre @ FunctionDef node # post)) = Inr r
               \<and> parse_file unparse (Inr (content, pre @ post)) = Inr r'
               \<and> same_entities r r'
               \<and> (FailedMcpFunction (node_name node) e \<in> set (warnings r)
                    \<or> FailedHelperFunction (node_name node) e \<in> set (warnings r))"
    by auto
next
  assume fail: "make_function unparse content imports node = Inl e"
  let ?X = "ClassDef c (before @ FunctionDef node # after)"
  let ?Y = "ClassDef c (before @ after)"
  have ix: "collect_imports (pre @ [?X] @ post) [] = Inr imports"
    using assms by (simp add: collect_imports_skip import_line_no_import)
  have iy: "collect_imports (pre @ [?Y] @ post) [] = Inr imports"
    using assms by (simp add: collect_imports_skip import_line_no_import)
  have step: "\<And>st. module_imports st = imports \<Longrightarrow>
      same_entities (classify_methods unparse content (before @ FunctionDef node # after) st)
        (classify_methods unparse content (before @ after) st)"
  proof -
    fix st :: extraction assume st: "module_imports st = imports"
    let ?b = "classify_methods unparse content before st"
    have "make_function unparse content (module_imports ?b) node = Inl e"
      using fail st by (simp add: classify_methods_imports)
    from classify_failed(1)[OF this]
    have "same_entities (classify unparse content True node ?b) ?b" .
    from classify_methods_same[OF this]
    show "same_entities (classify_methods unparse content (before @ FunctionDef node # after) st)
        (classify_methods unparse content (before @ after) st)"
      by (simp add: classify_methods_append)
  qed
  have cls: "\<And>st. module_imports st = imports \<Longrightarrow>
      same_entities (classify_nodes unparse content [?X] st)
        (classify_nodes unparse content [?Y] st)"
    using step by simp
  from parse_file_replace[OF ix iy _ cls] obtain r r' where
    r: "parse_file unparse (Inr (content, pre @ [?X] @ post)) = Inr r"
       "parse_file unparse (Inr (content, pre @ [?Y] @ post)) = Inr r'" "same_entities r r'"
    by (auto simp: same_entities_refl)
  have "FailedMcpClassMethod (node_name node) e \<in> set (warnings r)
      \<or> FailedHelperClassMethod (node_name node) e \<in> set (warnings r)"
  proof -
    let ?init = "\<lparr>mcp_functions = [], helper_functions = [], module_constants = [],
                  module_imports = imports, warnings = []\<rparr>"
    let ?ax = "classify_nodes unparse content pre
                 (extract_constants content (pre @ [?X] @ post) ?init)"
    let ?b = "classify_methods unparse content before ?ax"
    have ib: "module_imports ?b = imports"
      by (simp add: classify_methods_imports classify_nodes_imports extract_constants_imports)
    from ix r(1) have r_eq: "r = classify_nodes unparse content post
          (classify_methods unparse content after (classify unparse content True node ?b))"
      by (simp add: parse_file_def classify_nodes_append classify_methods_append)
    from fail ib have "make_function unparse content (module_imports ?b) node = Inl e" by simp
    from classify_failed(2)[OF this, of True] show ?thesis
      unfolding r_eq by (auto intro: classify_nodes_log classify_methods_log)
  qed
  with r show "\<exists>r r'. parse_file unparse
                       (Inr (content, pre @ ClassDef c (before @ FunctionDef node # after) # post))
                       = Inr r
               \<and> parse_file unparse (Inr (content, pre @ ClassDef c (before @ after) # post))
                       = Inr r'
               \<and> same_entities r r'
               \<and> (FailedMcpClassMethod (node_name node) e \<in> set (warnings r)
                    \<or> FailedHelperClassMethod (node_name node) e \<in> set (warnings r))"
    by auto
next
  assume fail: "extract_constant content ln = Inl e'"
  have ix: "collect_imports (pre @ [Assign targets ln] @ post) [] = Inr imports"
    using assms by (simp add: collect_imports_skip import_line_no_import)
  have iy: "collect_imports (pre @ [] @ post) [] = Inr imports" using assms by simp
  have cst: "\<And>st. same_entities (extract_constants content [Assign targets ln] st)
                     (extract_constants content [] st)"
    using constant_targets_failed[OF fail] by simp
  have cls: "\<And>st. module_imports st = imports \<Longrightarrow>
      same_entities (classify_nodes unparse content [Assign targets ln] st)
        (classify_nodes unparse content [] st)"
    by (simp add: same_entities_refl)
  from parse_file_replace[OF ix iy cst cls] obtain r r' where
    r: "parse_file unparse (Inr (content, pre @ [Assign targets ln] @ post)) = Inr r"
       "parse_file unparse (Inr (content, pre @ [] @ post)) = Inr r'" "same_entities r r'"
    by (auto simp: same_entities_refl)
  have "\<forall>ident. Name ident \<in> set targets \<longrightarrow> FailedConstant ident e' \<in> set (warnings r)"
  proof (intro allI impI)
    fix ident assume t: "Name ident \<in> set targets"
    have "\<And>st. FailedConstant ident e'
                \<in> set (warnings (extract_constants content [Assign targets ln] st))"
      using constant_targets_failed[OF fail] t by simp
    from parse_file_log_constants[OF ix this r(1)]
    show "FailedConstant ident e' \<in> set (warnings r)" .
  qed
  with r show "\<exists>r r'. parse_file unparse (Inr (content, pre @ Assign targets ln # post)) = Inr r
               \<and> parse_file unparse (Inr (content, pre @ post)) = Inr r'
               \<and> same_entities r r'
               \<and> (\<forall>ident. Name ident \<in> set targets \<longrightarrow>
                     FailedConstant ident e' \<in> set (warnings r))"
    by auto
qed

theorem C7_failed_entity_is_dropped_witness:
  "(\<exists>r r'. parse_file failing_unparse
              (Inr (mixed_text, [] @ FunctionDef bad_node # [FunctionDef good_node])) = Inr r
        \<and> parse_file failing_unparse (Inr (mixed_text, [] @ [FunctionDef good_node])) = Inr r'
        \<and> same_entities r r'
        \<and> map name (mcp_functions r) = [''good'']
        \<and> (FailedMcpFunction (node_name bad_node) (UnparseError ''T'') \<in> set (warnings r)
             \<or> FailedHelperFunction (node_name bad_node) (UnparseError ''T'') \<in> set (warnings r)))
   \<and> (\<exists>r r'. parse_file failing_unparse
              (Inr (mixed_text,
                    [] @ ClassDef ''K'' ([] @ FunctionDef bad_node # []) # [FunctionDef good_node]))
              = Inr r
        \<and> parse_file failing_unparse
              (Inr (mixed_text, [] @ ClassDef ''K'' ([] @ []) # [FunctionDef good_node])) = Inr r'
        \<and> same_entities r r'
        \<and> (FailedMcpClassMethod (node_name bad_node) (UnparseError ''T'') \<in> set (warnings r)
             \<or> FailedHelperClassMethod (node_name bad_node) (UnparseError ''T'')
                  \<in> set (warnings r)))
   \<and> (\<exists>r r'. parse_file failing_unparse
              (Inr (mixed_text, [] @ Assign [Name ''X''] 9 # [FunctionDef good_node])) = Inr r
        \<and> parse_file failing_unparse (Inr (mixed_text, [] @ [FunctionDef good_node])) = Inr r'
        \<and> same_entities r r'
        \<and> (\<forall>ident. Name ident \<in> set [Name ''X''] \<longrightarrow>
              FailedConstant ident IndexError \<in> set (warnings r)))"
proof -
  have h0: "collect_imports ([] @ [FunctionDef good_node]) [] = Inr ([] :: string list)"
    by (simp add: import_line_def)
  have h1: "make_function failing_unparse mixed_text [] bad_node = Inl (UnparseError ''T'')"
    by code_simp
  have h2: "extract_constant mixed_text 9 = Inl IndexError"
    by code_simp
  have good: "parse_file failing_unparse (Inr (mixed_text, [] @ [FunctionDef good_node])) =
     Inr \<lparr>mcp_functions =
            [\<lparr>name = ''good'', docstring = [], signature = ''()'',
              source_code = join_str [CHR 0x0A] [''@mcp.tool()'', ''def good():'', ''    pass'', []],
              line_number = 4, func_module_imports = []\<rparr>],
          helper_functions = [], module_constants = [], module_imports = [], warnings = []\<rparr>"
    by code_simp
  note inst = C7_failed_entity_is_dropped
       [OF h0, where unparse = failing_unparse and content = mixed_text and node = bad_node
          and e = "UnparseError ''T''" and c = "''K''" and before = "[]" and after = "[]"
          and ln = 9 and e' = IndexError and targets = "[Name ''X'']"]
  from inst h1 obtain r r' where
    a: "parse_file failing_unparse
              (Inr (mixed_text, [] @ FunctionDef bad_node # [FunctionDef good_node])) = Inr r"
       "parse_file failing_unparse (Inr (mixed_text, [] @ [FunctionDef good_node])) = Inr r'"
       "same_entities r r'"
       "FailedMcpFunction (node_name bad_node) (UnparseError ''T'') \<in> set (warnings r)
             \<or> FailedHelperFunction (node_name bad_node) (UnparseError ''T'') \<in> set (warnings r)"
    by blast
  from a(2,3) good have "map name (mcp_functions r) = [''good'']"
    by (simp add: same_entities_def)
  with a have A: "\<exists>r r'. parse_file failing_unparse
              (Inr (mixed_text, [] @ FunctionDef bad_node # [FunctionDef good_node])) = Inr r
        \<and> parse_file failing_unparse (Inr (mixed_text, [] @ [FunctionDef good_node])) = Inr r'
        \<and> same_entities r r'
        \<and> map name (mcp_functions r) = [''good'']
        \<and> (FailedMcpFunction (node_name bad_node) (UnparseError ''T'') \<in> set (warnings r)
             \<or> FailedHelperFunction (node_name bad_node) (UnparseError ''T'') \<in> set (warnings r))"
    by (intro exI[of _ r] exI[of _ r']) simp
  from inst h1 h2 have B: "(\<exists>r r'. parse_file failing_unparse
              (Inr (mixed_text,
                    [] @ ClassDef ''K'' ([] @ FunctionDef bad_node # []) # [FunctionDef good_node]))
              = Inr r
        \<and> parse_file failing_unparse
              (Inr (mixed_text, [] @ ClassDef ''K'' ([] @ []) # [FunctionDef good_node])) = Inr r'
        \<and> same_entities r r'
        \<and> (FailedMcpClassMethod (node_name bad_node) (UnparseError ''T'') \<in> set (warnings r)
             \<or> FailedHelperClassMethod (node_name bad_node) (UnparseError ''T'')
                  \<in> set (warnings r)))
   \<and> (\<exists>r r'. parse_file failing_unparse
              (Inr (mixed_text, [] @ Assign [Name ''X''] 9 # [FunctionDef good_node])) = Inr r
        \<and> parse_file failing_unparse (Inr (mixed_text, [] @ [FunctionDef good_node])) = Inr r'
        \<and> same_entities r r'
        \<and> (\<forall>ident. Name ident \<in> set [Name ''X''] \<longrightarrow>
              FailedConstant ident IndexError \<in> set (warnings r)))"
    by (simp only: simp_thms)
  from A B show ?thesis by (rule conjI)
qed

subsection \<open>C8\<close>

text \<open>
  Claim C8, as amended. The claim says that variadic and keyword-only parameters appear
  in the signature as ordinary parameters. The synthesizer reads \<^verbatim>\<open>node.args.args\<close>
  only: whatever stands in \<^verbatim>\<open>vararg\<close>, \<^verbatim>\<open>kwarg\<close>, \<^verbatim>\<open>kwonlyargs\<close> or \<^verbatim>\<open>posonlyargs\<close>
  leaves the signature unchanged, so these parameters are omitted from it.
\<close>

theorem C8_only_regular_parameters:
  "build_signature_string unparse
     (node\<lparr>node_args := (node_args node)\<lparr>posonlyargs := po, vararg := va,
                                            kwonlyargs := ko, kwarg := kw\<rparr>\<rparr>)
   = build_signature_string unparse node"
  by (simp add: build_signature_string_def cong: sum.case_cong)

text \<open>\<^verbatim>\<open>def f(a, *args, k: int, **kwargs)\<close> gets the signature \<^verbatim>\<open>(a)\<close>.\<close>

theorem C8_variadic_omitted_counterexample:
  "build_signature_string Inr variadic_f = Inr ''(a)''"
  by code_simp

subsection \<open>C9\<close>

text \<open>
  Claim C9. An annotated assignment at top level contributes nothing: the result of
  \<^verbatim>\<open>parse_file\<close> is the same as for the tree without it. The same holds for a plain
  assignment none of whose targets is a simple name.
\<close>

theorem C9_annotated_assignment_yields_no_constant:
  "parse_file unparse (Inr (content, pre @ AnnAssign target ann ln # post))
     = parse_file unparse (Inr (content, pre @ post))
   \<and> ((\<forall>ident. Name ident \<notin> set targets) \<longrightarrow>
        parse_file unparse (Inr (content, pre @ Assign targets ln' # post))
          = parse_file unparse (Inr (content, pre @ post)))"
proof (intro conjI impI)
  show "parse_file unparse (Inr (content, pre @ AnnAssign target ann ln # post))
     = parse_file unparse (Inr (content, pre @ post))"
    by (rule parse_file_skip) (simp_all add: import_line_no_import)
next
  assume "\<forall>ident. Name ident \<notin> set targets"
  then show "parse_file unparse (Inr (content, pre @ Assign targets ln' # post))
          = parse_file unparse (Inr (content, pre @ post))"
    by (intro parse_file_skip) (simp_all add: import_line_no_import constant_targets_no_name)
qed

theorem C9_annotated_assignment_yields_no_constant_witness:
  "parse_file Inr
     (Inr (annotated_text,
           [] @ AnnAssign (Name ''X'') ''int'' 1 # [Assign [Name ''Y''] 3]))
     = Inr \<lparr>mcp_functions = [], helper_functions = [], module_constants = [''Y = 2''],
            module_imports = [], warnings = []\<rparr>
   \<and> parse_file Inr
       (Inr (annotated_text,
             [] @ Assign [Attribute (Name ''a'') ''b''] 2 # [Assign [Name ''Y''] 3]))
     = Inr \<lparr>mcp_functions = [], helper_functions = [], module_constants = [''Y = 2''],
            module_imports = [], warnings = []\<rparr>"
proof -
  have h: "\<forall>ident. Name ident \<notin> set [Attribute (Name ''a'') ''b'']" by simp
  from C9_annotated_assignment_yields_no_constant
         [where unparse = Inr and content = annotated_text and pre = "[]"
            and target = "Name ''X''" and ann = "''int''" and ln = 1
            and post = "[Assign [Name ''Y''] 3]"
            and targets = "[Attribute (Name ''a'') ''b'']" and ln' = 2]
       h annotated_rest_parsed
  show ?thesis by (simp del: append_Nil)
qed

subsection \<open>C10\<close>

text \<open>
  Claim C10. The collected imports do not depend on the \<^verbatim>\<open>as\<close> names, and a
  from-import without a module contributes no line. For \<^verbatim>\<open>import a as b\<close>,
  \<^verbatim>\<open>from M import A as B\<close> and \<^verbatim>\<open>from . import x\<close> the lines are \<^verbatim>\<open>import a\<close> and
  \<^verbatim>\<open>from M import A\<close>.
\<close>

theorem C10_aliases_and_relative_imports_dropped:
  "collect_imports (pre @ Import (map (\<lambda>a. Alias (alias_name a) None) names) # post) acc
     = collect_imports (pre @ Import names # post) acc
   \<and> collect_imports (pre @ ImportFrom m (map (\<lambda>a. Alias (alias_name a) None) names) # post) acc
     = collect_imports (pre @ ImportFrom m names # post) acc
   \<and> collect_imports (pre @ ImportFrom None names # post) acc = collect_imports (pre @ post) acc
   \<and> parse_file Inr aliased_file =
       Inr \<lparr>mcp_functions = [], helper_functions = [], module_constants = [],
            module_imports = [''import a'', ''from M import A''], warnings = []\<rparr>"
proof (intro conjI)
  show "collect_imports (pre @ Import (map (\<lambda>a. Alias (alias_name a) None) names) # post) acc
     = collect_imports (pre @ Import names # post) acc"
    by (rule collect_imports_cong) (rule import_line_alias)
  show "collect_imports (pre @ ImportFrom m (map (\<lambda>a. Alias (alias_name a) None) names) # post) acc
     = collect_imports (pre @ ImportFrom m names # post) acc"
    by (rule collect_imports_cong) (rule import_line_alias)
  show "collect_imports (pre @ ImportFrom None names # post) acc = collect_imports (pre @ post) acc"
    by (rule collect_imports_skip) (simp add: import_line_no_import)
  show "parse_file Inr aliased_file =
       Inr \<lparr>mcp_functions = [], helper_functions = [], module_constants = [],
            module_imports = [''import a'', ''from M import A''], warnings = []\<rparr>"
    by code_simp
qed

end
